theory Spec2Isabelle
  imports
    Main
    "HOL-Library.Char_ord"
    "HOL-Library.List_Lexorder"
    "HOL-Library.Sublist"
    "HOL-Library.AList"
    "HOL-Library.Multiset"
begin

section \<open>Strings\<close>

text \<open>
  The model of \<^verbatim>\<open>scripts/update_vscode_includes.py\<close>. The files of the model are ASCII
  text with Unix line ends: for such a file \<^verbatim>\<open>read_text\<close> and \<^verbatim>\<open>read_bytes\<close> return the same
  characters, and a \<^typ>\<open>string\<close> is that character sequence. Files with other bytes are
  not covered: \<^verbatim>\<open>read_text\<close> would turn a carriage return into a line end, and raise
  \<^verbatim>\<open>UnicodeDecodeError\<close> for bytes that do not decode.
\<close>

definition dq :: char where
  "dq = CHR 0x22"

definition nl :: char where
  "nl = CHR 0x0A"

definition is_space :: "char \<Rightarrow> bool" where
  \<comment> \<open>\<^verbatim>\<open>str.isspace\<close> on ASCII: TAB, LF, VT, FF, CR, FS, GS, RS, US and the space.\<close>
  "is_space c = (let n = (of_char c :: nat) in (9 \<le> n \<and> n \<le> 13) \<or> (28 \<le> n \<and> n \<le> 32))"

definition is_word :: "char \<Rightarrow> bool" where
  \<comment> \<open>The regular-expression class \<^verbatim>\<open>\w\<close> on ASCII.\<close>
  "is_word c = (let n = (of_char c :: nat) in
     (48 \<le> n \<and> n \<le> 57) \<or> (65 \<le> n \<and> n \<le> 90) \<or> n = 95 \<or> (97 \<le> n \<and> n \<le> 122))"

definition lower_char :: "char \<Rightarrow> char" where
  "lower_char c =
     (case map_of (zip ''ABCDEFGHIJKLMNOPQRSTUVWXYZ'' ''abcdefghijklmnopqrstuvwxyz'') c of
        Some l \<Rightarrow> l | None \<Rightarrow> c)"

definition lower :: "string \<Rightarrow> string" where
  "lower s = map lower_char s"

definition strip :: "string \<Rightarrow> string" where
  \<comment> \<open>\<^verbatim>\<open>s.strip()\<close>\<close>
  "strip s = rev (dropWhile is_space (rev (dropWhile is_space s)))"

definition strip_char :: "char \<Rightarrow> string \<Rightarrow> string" where
  \<comment> \<open>\<^verbatim>\<open>s.strip(c)\<close> for a one-character argument\<close>
  "strip_char c s = rev (dropWhile (\<lambda>x. x = c) (rev (dropWhile (\<lambda>x. x = c) s)))"

fun split_on :: "char \<Rightarrow> string \<Rightarrow> string list" where
  \<comment> \<open>\<^verbatim>\<open>s.split(d)\<close>: the empty string splits into one empty field.\<close>
  "split_on d [] = [[]]"
| "split_on d (c # cs) =
     (if c = d then [] # split_on d cs
      else (case split_on d cs of w # ws \<Rightarrow> (c # w) # ws | [] \<Rightarrow> [[c]]))"

fun split_ws :: "string \<Rightarrow> string \<Rightarrow> string list" where
  \<comment> \<open>\<^verbatim>\<open>s.split()\<close>: fields between runs of whitespace, none empty; the first argument
      is the field being read.\<close>
  "split_ws w [] = (if w = [] then [] else [w])"
| "split_ws w (c # cs) =
     (if is_space c then (if w = [] then split_ws [] cs else w # split_ws [] cs)
      else split_ws (w @ [c]) cs)"

fun remove_all :: "string \<Rightarrow> string \<Rightarrow> string" where
  \<comment> \<open>\<^verbatim>\<open>s.replace(old, "")\<close>, scanning left to right, for a non-empty \<^verbatim>\<open>old\<close>\<close>
  "remove_all old [] = []"
| "remove_all old (c # cs) =
     (if old \<noteq> [] \<and> prefix old (c # cs) then remove_all old (drop (length old - 1) cs)
      else c # remove_all old cs)"

definition os_path_join :: "string \<Rightarrow> string \<Rightarrow> string" where
  \<comment> \<open>\<^verbatim>\<open>posixpath.join\<close> of two strings\<close>
  "os_path_join a b =
     (if b \<noteq> [] \<and> hd b = CHR ''/'' then b
      else if a = [] \<or> last a = CHR ''/'' then a @ b
      else a @ ''/'' @ b)"

function str_nat :: "nat \<Rightarrow> string" where
  "str_nat n =
     (if n < 10 then [''0123456789'' ! n] else str_nat (n div 10) @ [''0123456789'' ! (n mod 10)])"
  by pat_completeness auto
termination
  by (relation "measure id") auto

declare str_nat.simps [simp del]

definition sq :: char where
  "sq = CHR 0x27"

definition backslash :: char where
  "backslash = CHR 0x5C"

definition hexdigit :: "nat \<Rightarrow> char" where
  "hexdigit n = ''0123456789abcdef'' ! n"

definition repr_char :: "char \<Rightarrow> char \<Rightarrow> string" where
  \<comment> \<open>one character of \<^verbatim>\<open>repr(s)\<close> between the quotes \<open>q\<close>\<close>
  "repr_char q c =
     (if c = q \<or> c = backslash then [backslash, c]
      else if c = CHR 0x09 then [backslash, CHR ''t'']
      else if c = CHR 0x0A then [backslash, CHR ''n'']
      else if c = CHR 0x0D then [backslash, CHR ''r'']
      else if (of_char c :: nat) < 32 \<or> (of_char c :: nat) = 127
      then [backslash, CHR ''x'', hexdigit ((of_char c :: nat) div 16), hexdigit ((of_char c :: nat) mod 16)]
      else [c])"

definition repr_str :: "string \<Rightarrow> string" where
  \<comment> \<open>\<^verbatim>\<open>repr(s)\<close> of an ASCII string: double quotes only when \<open>s\<close> has a single quote and
      no double quote\<close>
  "repr_str s =
     (let q = (if sq \<in> set s \<and> dq \<notin> set s then dq else sq)
      in q # concat (map (repr_char q) s) @ [q])"

section \<open>Regular expressions\<close>

text \<open>
  The patterns of the script are written with combinators that follow the backtracking
  order of Python's \<^verbatim>\<open>re\<close>: a matcher takes the rest of the input and gives the value of the
  first successful branch. \<open>search\<close> is \<^verbatim>\<open>re.search\<close>: the leftmost start position wins.
\<close>

type_synonym 'a matcher = "string \<Rightarrow> 'a option"

definition lit :: "string \<Rightarrow> 'a matcher \<Rightarrow> 'a matcher" where
  \<comment> \<open>a literal, then \<open>k\<close>\<close>
  "lit l k s = (if prefix l s then k (drop (length l) s) else None)"

fun greedy_plus :: "(char \<Rightarrow> bool) \<Rightarrow> 'a matcher \<Rightarrow> 'a matcher" where
  \<comment> \<open>\<^verbatim>\<open>[p]+\<close> then \<open>k\<close>, greedy: the longest run first, giving characters back one by one\<close>
  "greedy_plus p k [] = None"
| "greedy_plus p k (c # cs) =
     (if p c then (case greedy_plus p k cs of Some r \<Rightarrow> Some r | None \<Rightarrow> k cs) else None)"

fun capture_plus :: "(char \<Rightarrow> bool) \<Rightarrow> (string \<Rightarrow> 'a matcher) \<Rightarrow> string \<Rightarrow> 'a matcher" where
  \<comment> \<open>\<^verbatim>\<open>([p]+)\<close> then \<open>k\<close>, greedy; \<open>k\<close> receives the captured group, \<open>acc\<close> is the part
      of the group read so far\<close>
  "capture_plus p k acc [] = None"
| "capture_plus p k acc (c # cs) =
     (if p c
      then (case capture_plus p k (acc @ [c]) cs of Some r \<Rightarrow> Some r | None \<Rightarrow> k (acc @ [c]) cs)
      else None)"

fun lazy_any :: "'a matcher \<Rightarrow> 'a matcher" where
  \<comment> \<open>\<^verbatim>\<open>.*?\<close> then \<open>k\<close>: the shortest run first; the dot does not match a newline\<close>
  "lazy_any k [] = k []"
| "lazy_any k (c # cs) =
     (case k (c # cs) of Some r \<Rightarrow> Some r | None \<Rightarrow> if c = nl then None else lazy_any k cs)"

fun search :: "'a matcher \<Rightarrow> 'a matcher" where
  "search m [] = m []"
| "search m (c # cs) = (case m (c # cs) of Some r \<Rightarrow> Some r | None \<Rightarrow> search m cs)"

definition quoted_group :: "string matcher" where
  \<comment> \<open>\<^verbatim>\<open>([^"]+)"\)\<close>\<close>
  "quoted_group = capture_plus (\<lambda>c. c \<noteq> dq) (\<lambda>g. lit [dq, CHR '')''] (\<lambda>_. Some g)) []"

definition paren_group :: "string matcher" where
  \<comment> \<open>\<^verbatim>\<open>([^)]+)\)\<close>\<close>
  "paren_group = capture_plus (\<lambda>c. c \<noteq> CHR '')'') (\<lambda>g. lit '')'' (\<lambda>_. Some g)) []"

definition set_variable :: "string \<Rightarrow> 'a matcher \<Rightarrow> 'a matcher" where
  \<comment> \<open>\<^verbatim>\<open>set\(\w+FIELD\w+\<close> then \<open>k\<close>\<close>
  "set_variable field k = lit ''set('' (greedy_plus is_word (lit field (greedy_plus is_word k)))"

definition re_include_dirs :: "string matcher" where
  \<comment> \<open>\<^verbatim>\<open>set\(\w+_INCLUDE_DIRS_\w+ "([^"]+)"\)\<close>, group 1\<close>
  "re_include_dirs = set_variable ''_INCLUDE_DIRS_'' (lit [CHR '' '', dq] quoted_group)"

definition re_package_folder :: "string matcher" where
  \<comment> \<open>\<^verbatim>\<open>set\((\w+)_PACKAGE_FOLDER_\w+ "([^"]+)"\)\<close>, group 2\<close>
  "re_package_folder = set_variable ''_PACKAGE_FOLDER_'' (lit [CHR '' '', dq] quoted_group)"

definition re_templated :: "string matcher" where
  \<comment> \<open>\<^verbatim>\<open>set\(\w+_INCLUDE_DIRS_\w+ "\$\{.*?PACKAGE_FOLDER.*?\}/([^"]+)"\)\<close>, group 1\<close>
  "re_templated = set_variable ''_INCLUDE_DIRS_''
     (lit ([CHR '' '', dq] @ ''${'')
        (lazy_any (lit ''PACKAGE_FOLDER'' (lazy_any (lit ''}/'' quoted_group)))))"

definition re_list_variable :: "string \<Rightarrow> string matcher" where
  \<comment> \<open>\<^verbatim>\<open>set\(\w+FIELD\w+ ([^)]+)\)\<close>, group 1\<close>
  "re_list_variable field = set_variable field (lit '' '' paren_group)"

definition re_cache_entry :: "string \<Rightarrow> string matcher" where
  \<comment> \<open>\<^verbatim>\<open>KEY(.+)\<close>, group 1\<close>
  "re_cache_entry key = lit key (capture_plus (\<lambda>c. c \<noteq> nl) (\<lambda>g _. Some g) [])"

section \<open>Package metadata: \<^verbatim>\<open>ConanDataParser\<close>\<close>

record conan_data =
  d_include_dirs :: "string list"
  d_defines :: "string list"
  d_framework_dirs :: "string list"
  d_frameworks :: "string list"

definition list_value :: "string option \<Rightarrow> (string \<Rightarrow> string list) \<Rightarrow> string list" where
  \<comment> \<open>the three list-valued fields: the group without surrounding quotes, split when not empty\<close>
  "list_value m split =
     (case m of None \<Rightarrow> []
      | Some g \<Rightarrow> (let s = strip_char dq g in if s \<noteq> [] then split s else []))"

definition parse_data_content :: "string \<Rightarrow> conan_data" where
  \<comment> \<open>the body of \<^verbatim>\<open>parse_data_file\<close> after \<^verbatim>\<open>content = file_path.read_text()\<close>\<close>
  "parse_data_content content =
     (let dirs1 = (case search re_include_dirs content of
                     Some g \<Rightarrow> [remove_all ''}'' (remove_all ''${'' g)]
                   | None \<Rightarrow> []);
          dirs2 = (case search re_package_folder content of
                     Some pkg_folder \<Rightarrow>
                       (case search re_templated content of
                          Some rel \<Rightarrow> [os_path_join pkg_folder rel]
                        | None \<Rightarrow> if dirs1 = [] then [os_path_join pkg_folder ''include''] else dirs1)
                   | None \<Rightarrow> dirs1)
      in \<lparr> d_include_dirs = dirs2,
           d_defines = list_value (search (re_list_variable ''_COMPILE_DEFINITIONS_'') content)
                         (split_ws []),
           d_framework_dirs = list_value (search (re_list_variable ''_FRAMEWORK_DIRS_'') content)
                                (split_on (CHR '';'')),
           d_frameworks = list_value (search (re_list_variable ''_FRAMEWORKS_'') content)
                            (split_on (CHR '';'')) \<rparr>)"

section \<open>Build cache: \<^verbatim>\<open>CMakeCacheReader\<close>\<close>

definition cache_patterns :: "(string \<times> string) list" where
  "cache_patterns =
     [(''CMAKE_CXX_COMPILER'', ''CMAKE_CXX_COMPILER:FILEPATH=''),
      (''CMAKE_BUILD_TYPE'', ''CMAKE_BUILD_TYPE:STRING=''),
      (''CMAKE_CONFIGURATION_TYPES'', ''CMAKE_CONFIGURATION_TYPES:STRING=''),
      (''CMAKE_GENERATOR'', ''CMAKE_GENERATOR:INTERNAL='')]"

definition parse_cache_content :: "string \<Rightarrow> (string \<rightharpoonup> string)" where
  \<comment> \<open>the loop of \<^verbatim>\<open>read_cache\<close> over its four patterns\<close>
  "parse_cache_content content key =
     (case map_of cache_patterns key of
        None \<Rightarrow> None
      | Some pat \<Rightarrow> map_option strip (search (re_cache_entry pat) content))"

section \<open>Configuration entries\<close>

record config =
  cfg_name :: string
  configurationProvider :: string
  includePath :: "string list"
  cfg_defines :: "string list"
  compilerPath :: string
  cStandard :: string
  cppStandard :: string
  intelliSenseMode :: string
  macFrameworkPath :: "string list option"

record scan_result =
  r_include_dirs :: "string set"
  r_defines :: "string set"
  r_framework_dirs :: "string set"

definition build_include_path :: "scan_result \<Rightarrow> string list" where
  "build_include_path conan_data =
     [''${workspaceFolder}/**'', ''${workspaceFolder}/include'', ''${workspaceFolder}/src'']
     @ sorted_list_of_set (r_include_dirs conan_data)"

definition build_defines :: "string \<Rightarrow> scan_result \<Rightarrow> string list" where
  "build_defines build_type conan_data =
     [''UNICODE'', ''_UNICODE'']
     @ (if build_type = ''Debug'' then [''_DEBUG''] else [''NDEBUG''])
     @ sorted_list_of_set (r_defines conan_data)"

section \<open>The file system and the host\<close>

text \<open>
  A path is the list of its parts, as \<^verbatim>\<open>Path.parts\<close> gives them; the file system is an
  association list from paths to nodes, in the order in which the operating system
  enumerates them (so \<^verbatim>\<open>glob\<close> and \<^verbatim>\<open>iterdir\<close> list a directory in that order). The state
  also holds what was printed on the two streams and the paths opened for writing. An
  exception leaves the state as it was when it was raised.

  A preset name or build type is taken as one path part and as the text of one pattern
  part. \<^verbatim>\<open>pathlib\<close> splits a string at every slash, both when it joins a path and when it
  reads a \<^verbatim>\<open>glob\<close> pattern, and Python 3.11 raises \<^verbatim>\<open>ValueError\<close> for a pattern part that holds
  \<^verbatim>\<open>**\<close> beside other characters; names and build types with a slash or with two stars in a
  row are therefore not covered by \<open>glob\<close> and \<open>hash_file_name\<close> below. File operations
  fail as they do on Linux.
\<close>

type_synonym path = "string list"

datatype node = File string | Dir

datatype py_error =
    FileNotFoundError path
  | IsADirectoryError path
  | NotADirectoryError path
  | FileExistsError path

record state =
  fs :: "(path \<times> node) list"
  stdout :: "string list"
  stderr :: "string list"
  opened :: "path list"

text \<open>
  What the script takes from the host and from Python's library: the digest of
  \<^verbatim>\<open>hashlib.sha256\<close> in hexadecimal, the match of one name against one \<^verbatim>\<open>glob\<close> pattern,
  the text \<^verbatim>\<open>json.dump\<close> writes, \<^verbatim>\<open>platform.system()\<close>, \<^verbatim>\<open>shutil.which\<close>, and the outcome
  of the two probes that run a subprocess (\<open>None\<close> when the probe raised or found nothing).
\<close>

record document =
  version :: int
  configurations :: "config list"
  comment :: string

record env =
  sha256_hexdigest :: "string \<Rightarrow> string"
  fnmatch :: "string \<Rightarrow> string \<Rightarrow> bool"
  json_dump :: "document \<Rightarrow> string"
  system :: string
  which :: "string \<Rightarrow> string option"
  vswhere_cl :: "string option"
  xcrun_clang :: "string option"

definition lookup :: "state \<Rightarrow> path \<Rightarrow> node option" where
  "lookup st p = map_of (fs st) p"

definition path_exists :: "state \<Rightarrow> path \<Rightarrow> bool" where
  "path_exists st p = (lookup st p \<noteq> None)"

definition is_dir :: "state \<Rightarrow> path \<Rightarrow> bool" where
  "is_dir st p = (lookup st p = Some Dir)"

definition read_text :: "state \<Rightarrow> path \<Rightarrow> py_error + string" where
  "read_text st p =
     (case lookup st p of
        None \<Rightarrow> Inl (FileNotFoundError p)
      | Some Dir \<Rightarrow> Inl (IsADirectoryError p)
      | Some (File c) \<Rightarrow> Inr c)"

definition read_bytes :: "state \<Rightarrow> path \<Rightarrow> py_error + string" where
  "read_bytes st p = read_text st p"

definition write_text :: "state \<Rightarrow> path \<Rightarrow> string \<Rightarrow> (py_error + unit) \<times> state" where
  \<comment> \<open>open for writing, truncate, write, close\<close>
  "write_text st p c =
     (case lookup st p of
        Some Dir \<Rightarrow> (Inl (IsADirectoryError p), st)
      | _ \<Rightarrow>
        (case lookup st (butlast p) of
           None \<Rightarrow> (Inl (FileNotFoundError p), st)
         | Some (File _) \<Rightarrow> (Inl (NotADirectoryError p), st)
         | Some Dir \<Rightarrow>
             (Inr (), st\<lparr>fs := AList.update p (File c) (fs st), opened := opened st @ [p]\<rparr>)))"

definition unlink :: "state \<Rightarrow> path \<Rightarrow> (py_error + unit) \<times> state" where
  "unlink st p =
     (case lookup st p of
        None \<Rightarrow> (Inl (FileNotFoundError p), st)
      | Some Dir \<Rightarrow> (Inl (IsADirectoryError p), st)
      | Some (File _) \<Rightarrow> (Inr (), st\<lparr>fs := AList.delete p (fs st)\<rparr>))"

definition mkdir_exist_ok :: "state \<Rightarrow> path \<Rightarrow> (py_error + unit) \<times> state" where
  \<comment> \<open>\<^verbatim>\<open>p.mkdir(exist_ok=True)\<close>\<close>
  "mkdir_exist_ok st p =
     (case lookup st p of
        Some Dir \<Rightarrow> (Inr (), st)
      | Some (File _) \<Rightarrow> (Inl (FileExistsError p), st)
      | None \<Rightarrow>
        (case lookup st (butlast p) of
           None \<Rightarrow> (Inl (FileNotFoundError p), st)
         | Some (File _) \<Rightarrow> (Inl (NotADirectoryError p), st)
         | Some Dir \<Rightarrow> (Inr (), st\<lparr>fs := fs st @ [(p, Dir)]\<rparr>)))"

definition children :: "state \<Rightarrow> path \<Rightarrow> path list" where
  \<comment> \<open>the entries of a directory, in enumeration order\<close>
  "children st d = filter (\<lambda>p. p \<noteq> [] \<and> butlast p = d) (map fst (fs st))"

definition glob :: "env \<Rightarrow> state \<Rightarrow> path \<Rightarrow> string \<Rightarrow> path list" where
  \<comment> \<open>\<^verbatim>\<open>list(d.glob(pattern))\<close> for a pattern of one part; nothing when \<open>d\<close> is not a
      directory\<close>
  "glob e st d pattern =
     (if is_dir st d then filter (\<lambda>p. fnmatch e pattern (last p)) (children st d) else [])"

definition print_out :: "string \<Rightarrow> state \<Rightarrow> state" where
  "print_out s st = st\<lparr>stdout := stdout st @ [s]\<rparr>"

definition print_err :: "string \<Rightarrow> state \<Rightarrow> state" where
  "print_err s st = st\<lparr>stderr := stderr st @ [s]\<rparr>"

definition is_anchor :: "string \<Rightarrow> bool" where
  "is_anchor s = (s \<noteq> [] \<and> hd s = CHR ''/'')"

definition path_name :: "path \<Rightarrow> string" where
  \<comment> \<open>\<^verbatim>\<open>p.name\<close>: the last part, empty for the root and for the empty path\<close>
  "path_name p = (if p = [] \<or> (length p = 1 \<and> is_anchor (hd p)) then [] else last p)"

definition path_parent :: "path \<Rightarrow> path" where
  \<comment> \<open>\<^verbatim>\<open>p.parent\<close>: the root and the empty path are their own parents\<close>
  "path_parent p = (if p = [] \<or> (length p = 1 \<and> is_anchor (hd p)) then p else butlast p)"

fun intercalate :: "string \<Rightarrow> string list \<Rightarrow> string" where
  "intercalate sep [] = []"
| "intercalate sep [x] = x"
| "intercalate sep (x # y # ys) = x @ sep @ intercalate sep (y # ys)"

definition str_path :: "path \<Rightarrow> string" where
  \<comment> \<open>\<^verbatim>\<open>str(p)\<close>\<close>
  "str_path p =
     (case p of
        [] \<Rightarrow> ''.''
      | a # r \<Rightarrow> if is_anchor a then a @ intercalate ''/'' r else intercalate ''/'' (a # r))"

fun str_error :: "py_error \<Rightarrow> string" where
  \<comment> \<open>\<^verbatim>\<open>str(e)\<close> of an \<^verbatim>\<open>OSError\<close> with a file name, with the error numbers of Linux:
      \<^verbatim>\<open>[Errno 21] Is a directory: '/ws/.vscode/x'\<close>\<close>
  "str_error (FileNotFoundError p) = ''[Errno 2] No such file or directory: '' @ repr_str (str_path p)"
| "str_error (IsADirectoryError p) = ''[Errno 21] Is a directory: '' @ repr_str (str_path p)"
| "str_error (NotADirectoryError p) = ''[Errno 20] Not a directory: '' @ repr_str (str_path p)"
| "str_error (FileExistsError p) = ''[Errno 17] File exists: '' @ repr_str (str_path p)"

section \<open>Compiler detection: \<^verbatim>\<open>CompilerDetector\<close>\<close>

definition truthy :: "string option \<Rightarrow> bool" where
  \<comment> \<open>Python's truth value of an \<^verbatim>\<open>Optional[str]\<close>: neither \<^verbatim>\<open>None\<close> nor empty\<close>
  "truthy v = (case v of None \<Rightarrow> False | Some s \<Rightarrow> s \<noteq> [])"

definition detect_msvc :: "env \<Rightarrow> string option \<times> string" where
  "detect_msvc e =
     (case vswhere_cl e of
        Some cl \<Rightarrow> (Some cl, ''windows-msvc-x64'')
      | None \<Rightarrow>
         (let cl_exe = which e ''cl'' in
          if truthy cl_exe then (cl_exe, ''windows-msvc-x64'') else (None, ''windows-msvc-x64'')))"

definition detect_macos_clang :: "env \<Rightarrow> string option \<times> string" where
  "detect_macos_clang e =
     (case xcrun_clang e of
        Some out \<Rightarrow> (Some (strip out), ''macos-clang-x64'')
      | None \<Rightarrow> (which e ''clang'', ''macos-clang-x64''))"

definition detect_linux_compiler :: "env \<Rightarrow> string option \<times> string" where
  "detect_linux_compiler e =
     (let gcc_path = which e ''gcc'' in
      if truthy gcc_path then (gcc_path, ''linux-gcc-x64'')
      else (let clang_path = which e ''clang'' in
            if truthy clang_path then (clang_path, ''linux-clang-x64'')
            else (None, ''linux-gcc-x64'')))"

definition detect_compiler :: "env \<Rightarrow> string option \<times> string" where
  "detect_compiler e =
     (if system e = ''Windows'' then detect_msvc e
      else if system e = ''Darwin'' then detect_macos_clang e
      else if system e = ''Linux'' then detect_linux_compiler e
      else (None, ''gcc-x64''))"

section \<open>Reading the files\<close>

definition parse_data_file :: "state \<Rightarrow> path \<Rightarrow> py_error + conan_data" where
  "parse_data_file st file_path =
     (case read_text st file_path of
        Inl err \<Rightarrow> Inl err
      | Inr content \<Rightarrow> Inr (parse_data_content content))"

definition data_pattern :: "string \<Rightarrow> string" where
  \<comment> \<open>\<^verbatim>\<open>f"*-{build_type.lower()}-*-data.cmake"\<close>\<close>
  "data_pattern build_type = ''*-'' @ lower build_type @ ''-*-data.cmake''"

fun scan_files :: "state \<Rightarrow> path list \<Rightarrow> scan_result \<Rightarrow> py_error + scan_result" where
  "scan_files st [] result = Inr result"
| "scan_files st (data_file # rest) result =
     (case parse_data_file st data_file of
        Inl err \<Rightarrow> Inl err
      | Inr data \<Rightarrow>
          scan_files st rest
            \<lparr> r_include_dirs = r_include_dirs result \<union> set (d_include_dirs data),
              r_defines = r_defines result \<union> set (d_defines data),
              r_framework_dirs = r_framework_dirs result \<union> set (d_framework_dirs data) \<rparr>)"

definition scan_generators_directory ::
    "env \<Rightarrow> state \<Rightarrow> path \<Rightarrow> string \<Rightarrow> py_error + scan_result" where
  "scan_generators_directory e st generators_dir build_type =
     scan_files st (glob e st generators_dir (data_pattern build_type))
       \<lparr> r_include_dirs = {}, r_defines = {}, r_framework_dirs = {} \<rparr>"

definition read_cache :: "state \<Rightarrow> path \<Rightarrow> py_error + (string \<rightharpoonup> string)" where
  "read_cache st cache_file =
     (if \<not> path_exists st cache_file then Inr Map.empty
      else (case read_text st cache_file of
              Inl err \<Rightarrow> Inl err
            | Inr content \<Rightarrow> Inr (parse_cache_content content)))"

section \<open>The generator: \<^verbatim>\<open>IntelliSenseConfigGenerator\<close>\<close>

record generator =
  workspace_root :: path
  vscode_dir :: path

definition init_generator :: "state \<Rightarrow> path \<Rightarrow> (py_error + generator) \<times> state" where
  \<comment> \<open>\<^verbatim>\<open>__init__\<close>\<close>
  "init_generator st root =
     (let vs = root @ [''.vscode''] in
      case mkdir_exist_ok st vs of
        (Inl err, st') \<Rightarrow> (Inl err, st')
      | (Inr _, st') \<Rightarrow> (Inr \<lparr> workspace_root = root, vscode_dir = vs \<rparr>, st'))"

fun find_preset :: "string list \<Rightarrow> string option" where
  \<comment> \<open>the loop of \<^verbatim>\<open>_extract_preset_name\<close> over \<^verbatim>\<open>enumerate(parts)\<close>\<close>
  "find_preset (a # b # c # rest) =
     (if a = ''build'' \<and> c = ''build'' then Some b else find_preset (b # c # rest))"
| "find_preset _ = None"

definition extract_preset_name :: "path \<Rightarrow> string" where
  \<comment> \<open>the second definition of \<^verbatim>\<open>_extract_preset_name\<close> in the class, which replaces the
      first\<close>
  "extract_preset_name build_dir =
     (case find_preset build_dir of
        Some preset \<Rightarrow> preset
      | None \<Rightarrow>
          if path_name build_dir = ''build'' then path_name (path_parent build_dir)
          else path_name build_dir)"

fun read_all :: "state \<Rightarrow> path list \<Rightarrow> py_error + string list" where
  "read_all st [] = Inr []"
| "read_all st (p # ps) =
     (case read_bytes st p of
        Inl err \<Rightarrow> Inl err
      | Inr b \<Rightarrow> (case read_all st ps of Inl err \<Rightarrow> Inl err | Inr bs \<Rightarrow> Inr (b # bs)))"

definition hash_directory :: "env \<Rightarrow> state \<Rightarrow> path \<Rightarrow> string \<Rightarrow> py_error + string" where
  \<comment> \<open>\<^verbatim>\<open>hasher.update\<close> on each file in turn digests the concatenation of the files\<close>
  "hash_directory e st directory build_type =
     (let data_files = sort (glob e st directory (data_pattern build_type))
      in case read_all st data_files of
           Inl err \<Rightarrow> Inl err
         | Inr bs \<Rightarrow> Inr (sha256_hexdigest e (concat bs)))"

definition hash_file_name :: "string \<Rightarrow> string \<Rightarrow> string" where
  \<comment> \<open>\<^verbatim>\<open>f".conan_hash_{preset_name}_{build_type}"\<close>\<close>
  "hash_file_name preset_name build_type = ''.conan_hash_'' @ preset_name @ ''_'' @ build_type"

definition check_changes :: "state \<Rightarrow> path \<Rightarrow> string \<Rightarrow> py_error + bool" where
  \<comment> \<open>the value of \<^verbatim>\<open>has_changes\<close> after the comparison with the stored hash\<close>
  "check_changes st hash_file content_hash =
     (if path_exists st hash_file
      then (case read_text st hash_file of
              Inl err \<Rightarrow> Inl err
            | Inr cached \<Rightarrow> Inr (strip cached \<noteq> content_hash))
      else Inr True)"

definition make_config ::
    "env \<Rightarrow> string \<Rightarrow> string \<Rightarrow> (string \<rightharpoonup> string) \<Rightarrow> scan_result \<Rightarrow> config" where
  \<comment> \<open>the dictionary \<^verbatim>\<open>config\<close> of \<^verbatim>\<open>_create_configuration\<close>\<close>
  "make_config e preset_name build_type cache_data conan_data =
     (let (detected_compiler, intellisense_mode) = detect_compiler e;
          cached = cache_data ''CMAKE_CXX_COMPILER'';
          compiler_path = (if truthy cached then cached else detected_compiler)
      in \<lparr> cfg_name = preset_name @ ''-'' @ build_type,
           configurationProvider = ''ms-vscode.cmake-tools'',
           includePath = build_include_path conan_data,
           cfg_defines = build_defines build_type conan_data,
           compilerPath = (if truthy compiler_path then the compiler_path else []),
           cStandard = ''c17'',
           cppStandard = ''c++20'',
           intelliSenseMode = intellisense_mode,
           macFrameworkPath =
             (if system e = ''Darwin'' \<and> r_framework_dirs conan_data \<noteq> {}
              then Some (sorted_list_of_set (r_framework_dirs conan_data)) else None) \<rparr>)"

definition create_configuration ::
    "env \<Rightarrow> generator \<Rightarrow> state \<Rightarrow> path \<Rightarrow> string \<Rightarrow> string \<Rightarrow> (string \<rightharpoonup> string)
       \<Rightarrow> (py_error + config option \<times> bool) \<times> state" where
  "create_configuration e self st build_dir preset_name build_type cache_data =
     (let generators_dir = build_dir @ [''generators''] in
      if \<not> path_exists st generators_dir then (Inr (None, False), st)
      else
        case hash_directory e st generators_dir build_type of
          Inl err \<Rightarrow> (Inl err, st)
        | Inr content_hash \<Rightarrow>
           (let hash_file = vscode_dir self @ [hash_file_name preset_name build_type] in
            case check_changes st hash_file content_hash of
              Inl err \<Rightarrow> (Inl err, st)
            | Inr has_changes \<Rightarrow>
               (case scan_generators_directory e st generators_dir build_type of
                  Inl err \<Rightarrow> (Inl err, st)
                | Inr conan_data \<Rightarrow>
                   (let config = make_config e preset_name build_type cache_data conan_data in
                    if has_changes
                    then (case write_text st hash_file content_hash of
                            (Inl err, st') \<Rightarrow> (Inl err, st')
                          | (Inr _, st') \<Rightarrow> (Inr (Some config, True), st'))
                    else (Inr (Some config, False), st)))))"

definition cleaned_up_message :: "string \<Rightarrow> string" where
  "cleaned_up_message name = ''[IntelliSense] Cleaned up orphaned hash: '' @ name"

definition remove_warning :: "string \<Rightarrow> py_error \<Rightarrow> string" where
  "remove_warning name err = ''Warning: Could not remove '' @ name @ '': '' @ str_error err"

fun cleanup_loop :: "string \<Rightarrow> string set \<Rightarrow> path list \<Rightarrow> state \<Rightarrow> state" where
  "cleanup_loop hash_prefix valid_build_types [] st = st"
| "cleanup_loop hash_prefix valid_build_types (hash_file # rest) st =
     (let build_type = drop (length hash_prefix) (path_name hash_file) in
      if build_type \<notin> valid_build_types
      then (case unlink st hash_file of
              (Inr _, st') \<Rightarrow>
                cleanup_loop hash_prefix valid_build_types rest
                  (print_out (cleaned_up_message (path_name hash_file)) st')
            | (Inl err, st') \<Rightarrow>
                cleanup_loop hash_prefix valid_build_types rest
                  (print_err (remove_warning (path_name hash_file) err) st'))
      else cleanup_loop hash_prefix valid_build_types rest st)"

definition cleanup_orphaned_hashes :: "env \<Rightarrow> generator \<Rightarrow> state \<Rightarrow> string \<Rightarrow> string set \<Rightarrow> state" where
  "cleanup_orphaned_hashes e self st preset_name valid_build_types =
     (let hash_prefix = ''.conan_hash_'' @ preset_name @ ''_''
      in cleanup_loop hash_prefix valid_build_types
           (glob e st (vscode_dir self) (hash_prefix @ ''*'')) st)"

fun create_each ::
    "env \<Rightarrow> generator \<Rightarrow> state \<Rightarrow> path \<Rightarrow> string \<Rightarrow> string list \<Rightarrow> (string \<rightharpoonup> string)
       \<Rightarrow> (py_error + config list \<times> bool) \<times> state" where
  \<comment> \<open>the loop over \<^verbatim>\<open>config_types\<close> of a multi-configuration build\<close>
  "create_each e self st build_dir preset_name [] cache_data = (Inr ([], False), st)"
| "create_each e self st build_dir preset_name (build_type # rest) cache_data =
     (if build_type \<noteq> []
      then (case create_configuration e self st build_dir preset_name build_type cache_data of
              (Inl err, st1) \<Rightarrow> (Inl err, st1)
            | (Inr (config, changed), st1) \<Rightarrow>
               (case create_each e self st1 build_dir preset_name rest cache_data of
                  (Inl err, st2) \<Rightarrow> (Inl err, st2)
                | (Inr (configs, has_changes), st2) \<Rightarrow>
                    (Inr ((case config of Some c \<Rightarrow> c # configs | None \<Rightarrow> configs),
                          (config \<noteq> None \<and> changed) \<or> has_changes), st2)))
      else create_each e self st build_dir preset_name rest cache_data)"

definition process_build_directory ::
    "env \<Rightarrow> generator \<Rightarrow> state \<Rightarrow> path \<Rightarrow> (py_error + config list \<times> bool) \<times> state" where
  "process_build_directory e self st build_dir =
     (let cache_file = build_dir @ [''CMakeCache.txt''] in
      if \<not> path_exists st cache_file then (Inr ([], False), st)
      else
        case read_cache st cache_file of
          Inl err \<Rightarrow> (Inl err, st)
        | Inr cache_data \<Rightarrow>
           (let preset_name = extract_preset_name build_dir;
                config_types =
                  split_on (CHR '';'')
                    (case cache_data ''CMAKE_CONFIGURATION_TYPES'' of Some v \<Rightarrow> v | None \<Rightarrow> []);
                is_multi_config = (length config_types > 1)
            in
              if is_multi_config
              then (case create_each e self st build_dir preset_name config_types cache_data of
                      (Inl err, st1) \<Rightarrow> (Inl err, st1)
                    | (Inr (configs, has_changes), st1) \<Rightarrow>
                        (Inr (configs, has_changes),
                         cleanup_orphaned_hashes e self st1 preset_name (set config_types)))
              else
                (let build_type =
                       (case cache_data ''CMAKE_BUILD_TYPE'' of Some v \<Rightarrow> v | None \<Rightarrow> ''Debug'')
                 in case create_configuration e self st build_dir preset_name build_type cache_data of
                      (Inl err, st1) \<Rightarrow> (Inl err, st1)
                    | (Inr (config, changed), st1) \<Rightarrow>
                        (Inr ((case config of Some c \<Rightarrow> [c] | None \<Rightarrow> []),
                              config \<noteq> None \<and> changed),
                         cleanup_orphaned_hashes e self st1 preset_name {build_type}))))"

fun process_each ::
    "env \<Rightarrow> generator \<Rightarrow> state \<Rightarrow> path list \<Rightarrow> (py_error + config list \<times> bool) \<times> state" where
  \<comment> \<open>the loop of \<^verbatim>\<open>generate_configuration\<close> over \<^verbatim>\<open>build_dirs\<close>\<close>
  "process_each e self st [] = (Inr ([], False), st)"
| "process_each e self st (build_dir # rest) =
     (case process_build_directory e self st build_dir of
        (Inl err, st1) \<Rightarrow> (Inl err, st1)
      | (Inr (configs, changed), st1) \<Rightarrow>
         (case process_each e self st1 rest of
            (Inl err, st2) \<Rightarrow> (Inl err, st2)
          | (Inr (cfgs, has_changes), st2) \<Rightarrow>
              (Inr (configs @ cfgs, changed \<or> has_changes), st2)))"

definition output_file :: "generator \<Rightarrow> path" where
  "output_file self = vscode_dir self @ [''c_cpp_properties.json'']"

definition cpp_properties :: "config list \<Rightarrow> document" where
  "cpp_properties cfgs =
     \<lparr> version = 4, configurations = cfgs,
       comment = ''CMake Tools extension provides primary IntelliSense via compile_commands.json. Explicit paths serve as fallback.'' \<rparr>"

definition generate_configuration ::
    "env \<Rightarrow> generator \<Rightarrow> state \<Rightarrow> path list \<Rightarrow> (py_error + int) \<times> state" where
  "generate_configuration e self st build_dirs =
     (case process_each e self st build_dirs of
        (Inl err, st1) \<Rightarrow> (Inl err, st1)
      | (Inr (cfgs, has_changes), st1) \<Rightarrow>
          if cfgs = []
          then (Inr 1,
                print_err ''Warning: No build configurations found. Run CMake configure first.'' st1)
          else if has_changes
          then (case write_text st1 (output_file self) (json_dump e (cpp_properties cfgs)) of
                  (Inl err, st2) \<Rightarrow> (Inl err, st2)
                | (Inr _, st2) \<Rightarrow>
                    (Inr 0,
                     print_out (''[IntelliSense] Updated '' @ str_path (output_file self) @ '' with ''
                                @ str_nat (length cfgs) @ '' configuration(s)'') st2))
          else (Inr 2, st1))"

section \<open>Discovery\<close>

definition discover_build_directories :: "state \<Rightarrow> path \<Rightarrow> path list" where
  "discover_build_directories st root =
     (let build_root = root @ [''build''] in
      if path_exists st build_root \<and> is_dir st build_root
      then map (\<lambda>preset_dir. preset_dir @ [''build''])
             (filter (\<lambda>preset_dir. is_dir st preset_dir \<and> is_dir st (preset_dir @ [''build''])
                        \<and> path_exists st (preset_dir @ [''build'', ''CMakeCache.txt'']))
                (children st build_root))
      else [])"

section \<open>Notions used in the statements\<close>

text \<open>
  The hash-record patterns begin with the ordinary characters \<open>.conan_hash_\<close>, so a \<^verbatim>\<open>glob\<close>
  for hash records never lists the configuration document; this is the one fact about
  pattern matching that the document's protection rests on.
\<close>

definition hash_glob_spares_document :: "env \<Rightarrow> bool" where
  "hash_glob_spares_document e =
     (\<forall>pat. \<not> fnmatch e (''.conan_hash_'' @ pat) ''c_cpp_properties.json'')"

text \<open>
  What every step of a run leaves alone: the document, the directory \<^verbatim>\<open>.vscode\<close>, and the
  document's absence from the paths opened for writing.
\<close>

definition frame :: "generator \<Rightarrow> state \<Rightarrow> state \<Rightarrow> bool" where
  "frame self st st' =
     (lookup st' (output_file self) = lookup st (output_file self)
      \<and> (is_dir st (vscode_dir self) \<longrightarrow> is_dir st' (vscode_dir self))
      \<and> (\<exists>ws. opened st' = opened st @ ws \<and> output_file self \<notin> set ws))"

text \<open>
  The change flag of a step that returned: it is set only with an entry, and exactly when
  the step stored a hash record.
\<close>

definition flag_ok :: "state \<Rightarrow> state \<Rightarrow> (py_error + config list \<times> bool) \<Rightarrow> bool" where
  "flag_ok st st' r =
     (case r of Inl err \<Rightarrow> True
      | Inr (cfgs, ch) \<Rightarrow> (ch \<longrightarrow> cfgs \<noteq> []) \<and> (ch \<longleftrightarrow> opened st' \<noteq> opened st))"







text \<open>
  The workspace with a given text stored as one hash record, and with that record absent.
\<close>

definition with_record :: "state \<Rightarrow> path \<Rightarrow> string \<Rightarrow> state" where
  "with_record st hash_file c = st\<lparr>fs := AList.update hash_file (File c) (fs st)\<rparr>"

definition without_record :: "state \<Rightarrow> path \<Rightarrow> state" where
  "without_record st hash_file = st\<lparr>fs := AList.delete hash_file (fs st)\<rparr>"

text \<open>
  Two states that show the same directory \<open>d\<close>: the same entries in the same order, with
  the same contents.
\<close>

definition agree_on :: "path \<Rightarrow> state \<Rightarrow> state \<Rightarrow> bool" where
  "agree_on d a b =
     (children a d = children b d \<and> lookup a d = lookup b d
      \<and> (\<forall>p. p \<noteq> [] \<and> butlast p = d \<longrightarrow> lookup a p = lookup b p))"














section \<open>A workspace to run the model on\<close>

text \<open>
  Stand-ins for the library: an injective digest in hexadecimal (two digits for each
  character), \<^verbatim>\<open>glob\<close> patterns whose only special character is the star, and a document
  rendered as the list of its entries' names.
\<close>

definition toy_digest :: "string \<Rightarrow> string" where
  "toy_digest s =
     concat (map (\<lambda>c. [hexdigit ((of_char c :: nat) div 16), hexdigit ((of_char c :: nat) mod 16)]) s)"

fun star_match :: "string \<Rightarrow> string \<Rightarrow> bool" where
  "star_match [] [] = True"
| "star_match [] (c # cs) = False"
| "star_match (p # ps) [] = (p = CHR ''*'' \<and> star_match ps [])"
| "star_match (p # ps) (c # cs) =
     (if p = CHR ''*'' then star_match ps (c # cs) \<or> star_match (p # ps) cs
      else p = c \<and> star_match ps cs)"

definition toy_env :: env where
  "toy_env =
     \<lparr> sha256_hexdigest = toy_digest,
       fnmatch = star_match,
       json_dump = (\<lambda>d. intercalate '','' (map cfg_name (configurations d))),
       system = ''Linux'',
       which = (\<lambda>n. if n = ''gcc'' then Some ''/usr/bin/gcc'' else None),
       vswhere_cl = None,
       xcrun_clang = None \<rparr>"

definition ws_root :: path where
  "ws_root = [''/'', ''ws'']"

definition zlib_data :: string where
  "zlib_data = ''set(zlib_INCLUDE_DIRS_DEBUG '' @ [dq] @ ''/pkg/zlib/include'' @ [dq] @ '')'' @ [nl]
     @ ''set(zlib_COMPILE_DEFINITIONS_DEBUG ZLIB_CONST)'' @ [nl]"

definition preset_tree :: "string \<Rightarrow> string \<Rightarrow> (path \<times> node) list" where
  \<comment> \<open>\<^verbatim>\<open>build/<preset>/build\<close> with a build cache and one metadata file\<close>
  "preset_tree preset cache =
     [(ws_root @ [''build'', preset], Dir),
      (ws_root @ [''build'', preset, ''build''], Dir),
      (ws_root @ [''build'', preset, ''build'', ''CMakeCache.txt''], File cache),
      (ws_root @ [''build'', preset, ''build'', ''generators''], Dir),
      (ws_root @ [''build'', preset, ''build'', ''generators'', ''zlib-debug-x86_64-data.cmake''],
         File zlib_data)]"

definition base_tree :: "(path \<times> node) list" where
  "base_tree = [([''/''], Dir), (ws_root, Dir), (ws_root @ [''.vscode''], Dir), (ws_root @ [''build''], Dir)]"

definition debug_cache :: string where
  "debug_cache = ''CMAKE_BUILD_TYPE:STRING=Debug'' @ [nl]"

definition st0 :: state where
  \<comment> \<open>two presets, \<open>a\<close> and \<open>a_b\<close>, each a single-configuration Debug build\<close>
  "st0 = \<lparr> fs = base_tree @ preset_tree ''a'' debug_cache @ preset_tree ''a_b'' debug_cache,
          stdout = [], stderr = [], opened = [] \<rparr>"

definition gen0 :: generator where
  "gen0 = \<lparr> workspace_root = ws_root, vscode_dir = ws_root @ [''.vscode''] \<rparr>"

definition dir_a :: path where
  "dir_a = ws_root @ [''build'', ''a'', ''build'']"

definition st_after :: state where
  \<comment> \<open>the workspace after a first run over preset \<open>a\<close>\<close>
  "st_after = snd (generate_configuration toy_env gen0 st0 [dir_a])"

definition blank_compiler_cache :: string where
  \<comment> \<open>a build cache whose compiler entry holds one space\<close>
  "blank_compiler_cache =
     ''CMAKE_CXX_COMPILER:FILEPATH= '' @ [nl] @ ''CMAKE_BUILD_TYPE:STRING=Debug'' @ [nl]"

definition st_blank :: state where
  "st_blank = \<lparr> fs = base_tree @ preset_tree ''a'' blank_compiler_cache,
               stdout = [], stderr = [], opened = [] \<rparr>"

definition detected_or_empty :: "env \<Rightarrow> string" where
  \<comment> \<open>the path \<^verbatim>\<open>detect_compiler\<close> found, or the empty string\<close>
  "detected_or_empty e = (case fst (detect_compiler e) of Some p \<Rightarrow> p | None \<Rightarrow> [])"

definition fmt_data :: string where
  "fmt_data = ''set(fmt_INCLUDE_DIRS_DEBUG '' @ [dq] @ ''/pkg/fmt/include'' @ [dq] @ '')'' @ [nl]"

definition st_pkgs :: state where
  \<comment> \<open>preset \<open>a\<close> with two metadata files, \<open>zlib\<close> enumerated before \<open>fmt\<close>\<close>
  "st_pkgs = \<lparr> fs = base_tree @ preset_tree ''a'' debug_cache
                    @ [(dir_a @ [''generators'', ''fmt-debug-x86_64-data.cmake''], File fmt_data)],
              stdout = [], stderr = [], opened = [] \<rparr>"

definition both_dirs :: "path list" where
  "both_dirs = [ws_root @ [''build'', ''a'', ''build''], ws_root @ [''build'', ''a_b'', ''build'']]"

definition st_first :: state where
  \<comment> \<open>the workspace after a first run over both presets\<close>
  "st_first =
     \<lparr> fs = fs st0
            @ [(vscode_dir gen0 @ [''.conan_hash_a_Debug''], File (toy_digest zlib_data)),
               (vscode_dir gen0 @ [''.conan_hash_a_b_Debug''], File (toy_digest zlib_data)),
               (output_file gen0, File ''a-Debug,a_b-Debug'')],
       stdout = [''[IntelliSense] Updated /ws/.vscode/c_cpp_properties.json with 2 configuration(s)''],
       stderr = [],
       opened = [vscode_dir gen0 @ [''.conan_hash_a_Debug''],
                 vscode_dir gen0 @ [''.conan_hash_a_b_Debug''],
                 output_file gen0] \<rparr>"

definition multi_cache :: string where
  "multi_cache = ''CMAKE_CONFIGURATION_TYPES:STRING=Debug;Release'' @ [nl]"

definition st_multi :: state where
  \<comment> \<open>preset \<open>a\<close> built by a multi-configuration generator\<close>
  "st_multi = \<lparr> fs = base_tree @ preset_tree ''a'' multi_cache,
               stdout = [], stderr = [], opened = [] \<rparr>"


text \<open>
  A second stand-in for \<^verbatim>\<open>glob\<close> matching, with the star, the question mark and a bracket
  class that lists its characters (no negation and no ranges); a bracket that is not closed
  stands for itself.
\<close>

function glob_match :: "string \<Rightarrow> string \<Rightarrow> bool" where
  "glob_match [] n = (n = [])"
| "glob_match (p # ps) n =
     (if p = CHR ''*''
      then glob_match ps n \<or> (if n = [] then False else glob_match (p # ps) (tl n))
      else if n = [] then False
      else if p = CHR ''?'' then glob_match ps (tl n)
      else if p = CHR ''['' \<and> ps \<noteq> [] \<and> CHR '']'' \<in> set (tl ps)
      then hd n \<in> set (hd ps # takeWhile (\<lambda>c. c \<noteq> CHR '']'') (tl ps))
           \<and> glob_match (tl (dropWhile (\<lambda>c. c \<noteq> CHR '']'') (tl ps))) (tl n)
      else hd n = p \<and> glob_match ps (tl n))"
  by pat_completeness auto

termination
proof (relation "measure (\<lambda>(p, n). 2 * length p + length n)", goal_cases)
  case 1
  then show ?case by simp
next
  case (2 p ps n)
  then show ?case by simp
next
  case (3 p ps n)
  then show ?case by (cases n) simp_all
next
  case (4 p ps n)
  then show ?case by simp
next
  case (5 p ps n)
  have "length (dropWhile (\<lambda>c. c \<noteq> CHR '']'') (tl ps)) \<le> length (tl ps)"
    by (rule length_dropWhile_le)
  then show ?case by simp
next
  case (6 p ps n)
  then show ?case by simp
qed

definition bracket_env :: env where
  "bracket_env = toy_env\<lparr>fnmatch := glob_match\<rparr>"

definition dir_p :: path where
  "dir_p = ws_root @ [''build'', ''p[1]'', ''build'']"

definition st_brackets :: state where
  \<comment> \<open>preset \<open>p[1]\<close>, now a Debug build, with its record of an earlier Release build and the
      record of another preset \<open>p1\<close>\<close>
  "st_brackets =
     \<lparr> fs = base_tree @ preset_tree ''p[1]'' debug_cache
            @ [(vscode_dir gen0 @ [''.conan_hash_p[1]_Release''], File ''r''),
               (vscode_dir gen0 @ [''.conan_hash_p1_Debug''], File ''d'')],
       stdout = [], stderr = [], opened = [] \<rparr>"





section \<open>What a run leaves alone\<close>


lemma frame_refl: "frame self st st"
  by (simp add: frame_def)

lemma frame_trans: "frame self a b \<Longrightarrow> frame self b c \<Longrightarrow> frame self a c"
  by (auto simp: frame_def)

lemma lookup_update:
  "lookup (st\<lparr>fs := AList.update p v (fs st), opened := ws\<rparr>) q = (if q = p then Some v else lookup st q)"
  by (simp add: lookup_def update_conv')

lemma lookup_delete:
  "lookup (st\<lparr>fs := AList.delete p (fs st)\<rparr>) q = (if q = p then None else lookup st q)"
  by (simp add: lookup_def delete_conv')

lemma lookup_print [simp]:
  "lookup (print_out s st) q = lookup st q" "lookup (print_err s st) q = lookup st q"
  by (simp_all add: lookup_def print_out_def print_err_def)

lemma opened_print [simp]:
  "opened (print_out s st) = opened st" "opened (print_err s st) = opened st"
  by (simp_all add: print_out_def print_err_def)

lemma write_text_cases:
  assumes "write_text st p c = (r, st')"
  shows "(r = Inr () \<and> st' = st\<lparr>fs := AList.update p (File c) (fs st), opened := opened st @ [p]\<rparr>
           \<and> lookup st (butlast p) = Some Dir \<and> lookup st p \<noteq> Some Dir)
         \<or> ((\<exists>err. r = Inl err) \<and> st' = st)"
  using assms by (auto simp: write_text_def split: option.splits node.splits)

lemma unlink_cases:
  assumes "unlink st p = (r, st')"
  shows "(r = Inr () \<and> st' = st\<lparr>fs := AList.delete p (fs st)\<rparr> \<and> (\<exists>c. lookup st p = Some (File c)))
         \<or> ((\<exists>err. r = Inl err) \<and> st' = st)"
  using assms by (auto simp: unlink_def split: option.splits node.splits)

lemma hash_file_not_document:
  "hash_file_name pn bt \<noteq> ''c_cpp_properties.json''"
  "''c_cpp_properties.json'' \<noteq> hash_file_name pn bt"
  by (simp_all add: hash_file_name_def)

lemma create_configuration_cases:
  assumes "create_configuration e self st bd pn bt cd = (r, st')"
  shows "(\<exists>cfg h. r = Inr (Some cfg, True)
            \<and> st' = st\<lparr>fs := AList.update (vscode_dir self @ [hash_file_name pn bt]) (File h) (fs st),
                       opened := opened st @ [vscode_dir self @ [hash_file_name pn bt]]\<rparr>
            \<and> lookup st (vscode_dir self) = Some Dir)
         \<or> (((\<exists>err. r = Inl err) \<or> (\<exists>c. r = Inr (c, False))) \<and> st' = st)"
proof -
  let ?hf = "vscode_dir self @ [hash_file_name pn bt]"
  show ?thesis
    using assms
    by (auto simp: create_configuration_def Let_def
             split: if_splits sum.splits prod.splits
             dest!: write_text_cases)
qed


lemma create_configuration_frame:
  assumes "create_configuration e self st bd pn bt cd = (r, st')"
  shows "frame self st st'"
  using create_configuration_cases[OF assms]
  by (auto simp: frame_def output_file_def lookup_update hash_file_not_document is_dir_def)

lemma create_configuration_flag:
  assumes "create_configuration e self st bd pn bt cd = (Inr (c, ch), st')"
  shows "(ch \<longrightarrow> c \<noteq> None) \<and> ((c \<noteq> None \<and> ch) \<longleftrightarrow> opened st' \<noteq> opened st)"
  using create_configuration_cases[OF assms] by auto

lemma glob_member:
  assumes "p \<in> set (glob e st d pat)"
  shows "p \<noteq> [] \<and> butlast p = d \<and> fnmatch e pat (last p)"
  using assms by (auto simp: glob_def children_def split: if_splits)

lemma unlink_frame:
  assumes "unlink st p = (r, st')" and "p \<noteq> output_file self"
  shows "frame self st st' \<and> opened st' = opened st"
  using unlink_cases[OF assms(1)] assms(2)
  by (auto simp: frame_def lookup_delete is_dir_def)

lemma frame_print:
  "frame self st st' \<Longrightarrow> frame self st (print_out s st')"
  "frame self st st' \<Longrightarrow> frame self st (print_err s st')"
  by (simp_all add: frame_def is_dir_def)

lemma cleanup_loop_frame:
  assumes "\<forall>p\<in>set ps. p \<noteq> output_file self"
  shows "frame self st (cleanup_loop hp valid ps st) \<and> opened (cleanup_loop hp valid ps st) = opened st"
  using assms
proof (induction ps arbitrary: st)
  case Nil
  then show ?case by (simp add: frame_refl)
next
  case (Cons p ps)
  obtain r st1 where u: "unlink st p = (r, st1)" by (cases "unlink st p")
  have p: "p \<noteq> output_file self" using Cons.prems by simp
  have f1: "frame self st st1" and o1: "opened st1 = opened st"
    using unlink_frame[OF u p] by simp_all
  have rest: "\<forall>q\<in>set ps. q \<noteq> output_file self" using Cons.prems by simp
  note IH = Cons.IH[OF rest]
  show ?case
  proof (cases "drop (length hp) (path_name p) \<in> valid")
    case True
    then show ?thesis using IH[of st] by simp
  next
    case False
    show ?thesis
    proof (cases r)
      case (Inl err)
      let ?s = "print_err (remove_warning (path_name p) err) st1"
      have "frame self st ?s" using f1 by (rule frame_print)
      with IH[of ?s] o1 False u Inl show ?thesis
        by (auto intro: frame_trans)
    next
      case (Inr x)
      let ?s = "print_out (cleaned_up_message (path_name p)) st1"
      have "frame self st ?s" using f1 by (rule frame_print)
      with IH[of ?s] o1 False u Inr show ?thesis
        by (auto intro: frame_trans)
    qed
  qed
qed

lemma cleanup_orphaned_hashes_frame:
  assumes "hash_glob_spares_document e"
  shows "frame self st (cleanup_orphaned_hashes e self st pn valid)
         \<and> opened (cleanup_orphaned_hashes e self st pn valid) = opened st"
proof -
  have "\<forall>p\<in>set (glob e st (vscode_dir self) ((''.conan_hash_'' @ pn @ ''_'') @ ''*'')). p \<noteq> output_file self"
  proof
    fix p assume "p \<in> set (glob e st (vscode_dir self) ((''.conan_hash_'' @ pn @ ''_'') @ ''*''))"
    then have "fnmatch e (''.conan_hash_'' @ (pn @ ''_*'')) (last p)"
      using glob_member by fastforce
    then have "last p \<noteq> ''c_cpp_properties.json''"
      using assms unfolding hash_glob_spares_document_def by metis
    then show "p \<noteq> output_file self" by (auto simp: output_file_def)
  qed
  then show ?thesis
    unfolding cleanup_orphaned_hashes_def Let_def by (rule cleanup_loop_frame)
qed

lemma frame_opened: "frame self st st' \<Longrightarrow> \<exists>ws. opened st' = opened st @ ws"
  by (auto simp: frame_def)

lemma create_each_frame:
  assumes "create_each e self st bd pn bts cd = (r, st')"
  shows "frame self st st' \<and> flag_ok st st' r"
  using assms
proof (induction bts arbitrary: st r st')
  case Nil
  then show ?case by (auto simp: frame_refl flag_ok_def)
next
  case (Cons bt bts)
  show ?case
  proof (cases "bt = []")
    case True
    with Cons show ?thesis by simp
  next
    case False
    obtain r1 st1 where c: "create_configuration e self st bd pn bt cd = (r1, st1)"
      by (cases "create_configuration e self st bd pn bt cd")
    have f1: "frame self st st1" by (rule create_configuration_frame[OF c])
    show ?thesis
    proof (cases r1)
      case (Inl err)
      with Cons.prems False c f1 show ?thesis by (auto simp: flag_ok_def)
    next
      case (Inr v)
      obtain cfg ch where v: "v = (cfg, ch)" by (cases v)
      obtain r2 st2 where e2: "create_each e self st1 bd pn bts cd = (r2, st2)"
        by (cases "create_each e self st1 bd pn bts cd")
      have f2: "frame self st1 st2" and k2: "flag_ok st1 st2 r2"
        using Cons.IH[OF e2] by simp_all
      have fl: "(ch \<longrightarrow> cfg \<noteq> None) \<and> ((cfg \<noteq> None \<and> ch) \<longleftrightarrow> opened st1 \<noteq> opened st)"
        using create_configuration_flag c Inr v by metis
      obtain w1 where w1: "opened st1 = opened st @ w1" using frame_opened[OF f1] by blast
      obtain w2 where w2: "opened st2 = opened st1 @ w2" using frame_opened[OF f2] by blast
      show ?thesis
      proof (cases r2)
        case (Inl err)
        with Cons.prems False c Inr v e2 f1 f2 show ?thesis
          by (auto simp: flag_ok_def intro: frame_trans)
      next
        case (Inr v2)
        obtain cfgs ch2 where v2: "v2 = (cfgs, ch2)" by (cases v2)
        have st': "st' = st2" and r: "r = Inr ((case cfg of Some c \<Rightarrow> c # cfgs | None \<Rightarrow> cfgs),
                          (cfg \<noteq> None \<and> ch) \<or> ch2)"
          using Cons.prems False c \<open>r1 = Inr v\<close> v e2 Inr v2 by auto
        have "frame self st st'" using f1 f2 st' by (auto intro: frame_trans)
        moreover have "flag_ok st st' r"
          using k2 fl w1 w2 unfolding r st' Inr v2 flag_ok_def
          by (auto split: option.splits)
        ultimately show ?thesis by simp
      qed
    qed
  qed
qed


lemma flag_ok_cleanup:
  assumes "hash_glob_spares_document e" and "frame self st st1" and "flag_ok st st1 (Inr v)"
  shows "frame self st (cleanup_orphaned_hashes e self st1 pn valid)
         \<and> flag_ok st (cleanup_orphaned_hashes e self st1 pn valid) (Inr v)"
  using cleanup_orphaned_hashes_frame[OF assms(1), of self st1 pn valid] assms(2,3)
  by (auto simp: flag_ok_def intro: frame_trans split: prod.splits)

lemma process_build_directory_frame:
  assumes sp: "hash_glob_spares_document e"
    and run: "process_build_directory e self st bd = (r, st')"
  shows "frame self st st' \<and> flag_ok st st' r"
proof (cases "path_exists st (bd @ [''CMakeCache.txt''])")
  case False
  with run show ?thesis by (auto simp: process_build_directory_def frame_refl flag_ok_def)
next
  case True
  show ?thesis
  proof (cases "read_cache st (bd @ [''CMakeCache.txt''])")
    case (Inl err)
    with run True show ?thesis by (auto simp: process_build_directory_def frame_refl flag_ok_def)
  next
    case (Inr cd)
    let ?pn = "extract_preset_name bd"
    let ?types = "split_on (CHR '';'') (case cd ''CMAKE_CONFIGURATION_TYPES'' of Some v \<Rightarrow> v | None \<Rightarrow> [])"
    show ?thesis
    proof (cases "length ?types > 1")
      case multi: True
      obtain r1 st1 where e1: "create_each e self st bd ?pn ?types cd = (r1, st1)"
        by (cases "create_each e self st bd ?pn ?types cd")
      have f1: "frame self st st1" and k1: "flag_ok st st1 r1"
        using create_each_frame[OF e1] by simp_all
      show ?thesis
      proof (cases r1)
        case (Inl err)
        with run True Inr multi e1 f1 show ?thesis
          by (auto simp: process_build_directory_def Let_def flag_ok_def)
      next
        case r1: (Inr v)
        have "r = Inr v" "st' = cleanup_orphaned_hashes e self st1 ?pn (set ?types)"
          using run True Inr multi e1 r1
          by (auto simp: process_build_directory_def Let_def split: prod.splits)
        then show ?thesis using flag_ok_cleanup[OF sp f1] k1 r1 by simp
      qed
    next
      case single: False
      let ?bt = "case cd ''CMAKE_BUILD_TYPE'' of Some v \<Rightarrow> v | None \<Rightarrow> ''Debug''"
      obtain r1 st1 where c1: "create_configuration e self st bd ?pn ?bt cd = (r1, st1)"
        by (cases "create_configuration e self st bd ?pn ?bt cd")
      have f1: "frame self st st1" by (rule create_configuration_frame[OF c1])
      show ?thesis
      proof (cases r1)
        case (Inl err)
        with run True Inr single c1 f1 show ?thesis
          by (auto simp: process_build_directory_def Let_def flag_ok_def)
      next
        case r1: (Inr v)
        obtain cfg ch where v: "v = (cfg, ch)" by (cases v)
        let ?v = "((case cfg of Some c \<Rightarrow> [c] | None \<Rightarrow> []), cfg \<noteq> None \<and> ch)"
        have res: "r = Inr ?v" "st' = cleanup_orphaned_hashes e self st1 ?pn {?bt}"
          using run True Inr single c1 r1 v
          by (auto simp: process_build_directory_def Let_def)
        have "flag_ok st st1 (Inr ?v)"
          using create_configuration_flag[of e self st bd ?pn ?bt cd cfg ch st1] c1 r1 v
          by (auto simp: flag_ok_def split: option.splits)
        then show ?thesis using flag_ok_cleanup[OF sp f1] res by simp
      qed
    qed
  qed
qed

lemma process_each_frame:
  assumes sp: "hash_glob_spares_document e"
    and run: "process_each e self st dirs = (r, st')"
  shows "frame self st st' \<and> flag_ok st st' r"
  using run
proof (induction dirs arbitrary: st r st')
  case Nil
  then show ?case by (auto simp: frame_refl flag_ok_def)
next
  case (Cons bd dirs)
  obtain r1 st1 where p1: "process_build_directory e self st bd = (r1, st1)"
    by (cases "process_build_directory e self st bd")
  have f1: "frame self st st1" and k1: "flag_ok st st1 r1"
    using process_build_directory_frame[OF sp p1] by simp_all
  show ?case
  proof (cases r1)
    case (Inl err)
    with Cons.prems p1 f1 show ?thesis by (auto simp: flag_ok_def)
  next
    case r1: (Inr v)
    obtain cfgs1 ch1 where v: "v = (cfgs1, ch1)" by (cases v)
    obtain r2 st2 where p2: "process_each e self st1 dirs = (r2, st2)"
      by (cases "process_each e self st1 dirs")
    have f2: "frame self st1 st2" and k2: "flag_ok st1 st2 r2"
      using Cons.IH[OF p2] by simp_all
    obtain w1 where w1: "opened st1 = opened st @ w1" using frame_opened[OF f1] by blast
    obtain w2 where w2: "opened st2 = opened st1 @ w2" using frame_opened[OF f2] by blast
    show ?thesis
    proof (cases r2)
      case (Inl err)
      with Cons.prems p1 r1 v p2 f1 f2 show ?thesis
        by (auto simp: flag_ok_def intro: frame_trans)
    next
      case r2: (Inr v2)
      obtain cfgs2 ch2 where v2: "v2 = (cfgs2, ch2)" by (cases v2)
      have res: "st' = st2" "r = Inr (cfgs1 @ cfgs2, ch1 \<or> ch2)"
        using Cons.prems p1 r1 v p2 r2 v2 by auto
      have "frame self st st'" using f1 f2 res by (auto intro: frame_trans)
      moreover have "flag_ok st st' r"
        using k1 k2 w1 w2 unfolding res r1 v r2 v2 flag_ok_def by auto
      ultimately show ?thesis by simp
    qed
  qed
qed

section \<open>Facts about the example workspace\<close>

lemma toy_env_spares_document: "hash_glob_spares_document toy_env"
  by (simp add: hash_glob_spares_document_def toy_env_def)

lemma st0_vscode: "is_dir st0 (vscode_dir gen0)"
  by code_simp

lemma st_after_vscode: "is_dir st_after (vscode_dir gen0)"
  by code_simp

lemma st_after_document: "lookup st_after (output_file gen0) \<noteq> Some Dir"
  by code_simp

lemma run1_flag:
  "(case fst (process_each toy_env gen0 st_after [dir_a]) of
      Inl err \<Rightarrow> False | Inr (cfgs, ch) \<Rightarrow> cfgs \<noteq> [] \<and> \<not> ch)"
  by code_simp

section \<open>The document writer\<close>










text \<open>
  \<^bold>\<open>C6\<close>. When the build directories were processed without an exception,
  \<^verbatim>\<open>generate_configuration\<close> returns 1 if no entry was synthesized (the change flag cannot
  be set then), 0 if there are entries and a pair changed, and 2 if there are entries and
  no pair changed. With 2 the state is the one the processing left and nothing was opened
  for writing; with 1 only the warning was printed; with 0 the document was written last
  and holds the dump of the entries.
\<close>

theorem generate_configuration_tristate:
  assumes sp: "hash_glob_spares_document e"
    and vs: "is_dir st (vscode_dir self)"
    and out: "lookup st (output_file self) \<noteq> Some Dir"
    and pe: "process_each e self st build_dirs = (Inr (cfgs, has_changes), st1)"
    and gc: "generate_configuration e self st build_dirs = (r, st')"
  shows "r = Inr (if cfgs = [] then 1 else if has_changes then 0 else 2)
         \<and> (cfgs = [] \<longrightarrow> \<not> has_changes)
         \<and> (r = Inr 2 \<longrightarrow> st' = st1 \<and> opened st' = opened st)
         \<and> (r = Inr 1 \<longrightarrow> fs st' = fs st1 \<and> opened st' = opened st)
         \<and> (r = Inr 0 \<longrightarrow> opened st' = opened st1 @ [output_file self]
               \<and> lookup st' (output_file self) = Some (File (json_dump e (cpp_properties cfgs))))"
proof -
  have f1: "frame self st st1" and k1: "flag_ok st st1 (Inr (cfgs, has_changes))"
    using process_each_frame[OF sp pe] by simp_all
  have k: "(has_changes \<longrightarrow> cfgs \<noteq> [])" "(has_changes \<longleftrightarrow> opened st1 \<noteq> opened st)"
    using k1 by (auto simp: flag_ok_def)
  have l1: "lookup st1 (output_file self) \<noteq> Some Dir"
    and d1: "lookup st1 (butlast (output_file self)) = Some Dir"
    using f1 vs out by (auto simp: frame_def output_file_def is_dir_def)
  obtain r2 st2 where w: "write_text st1 (output_file self) (json_dump e (cpp_properties cfgs)) = (r2, st2)"
    by (cases "write_text st1 (output_file self) (json_dump e (cpp_properties cfgs))")
  have st2: "r2 = Inr ()"
      "st2 = st1\<lparr>fs := AList.update (output_file self) (File (json_dump e (cpp_properties cfgs))) (fs st1),
                 opened := opened st1 @ [output_file self]\<rparr>"
    using w l1 d1 by (auto simp: write_text_def split: option.splits node.splits)
  have w': "write_text st1 (output_file self) (json_dump e (cpp_properties cfgs)) = (Inr (), st2)"
    using w st2(1) by simp
  have o2: "opened st2 = opened st1 @ [output_file self]"
    and l2: "lookup st2 (output_file self) = Some (File (json_dump e (cpp_properties cfgs)))"
    unfolding st2(2) by (simp_all add: lookup_update)
  have gen: "generate_configuration e self st build_dirs =
          (if cfgs = [] then (Inr 1, print_err ''Warning: No build configurations found. Run CMake configure first.'' st1)
           else if has_changes
           then (Inr 0, print_out (''[IntelliSense] Updated '' @ str_path (output_file self) @ '' with ''
                                @ str_nat (length cfgs) @ '' configuration(s)'') st2)
           else (Inr 2, st1))"
    unfolding generate_configuration_def pe using w' by simp
  show ?thesis
  proof (cases "cfgs = []")
    case True
    then have "r = Inr 1" "st' = print_err ''Warning: No build configurations found. Run CMake configure first.'' st1"
      using gen gc by simp_all
    then show ?thesis using True k by (simp add: print_err_def)
  next
    case ne: False
    show ?thesis
    proof (cases has_changes)
      case True
      then have "r = Inr 0" "st' = print_out (''[IntelliSense] Updated '' @ str_path (output_file self) @ '' with ''
                                @ str_nat (length cfgs) @ '' configuration(s)'') st2"
        using ne gen gc by simp_all
      then show ?thesis using True ne o2 l2 by simp
    next
      case False
      then have "r = Inr 2" "st' = st1"
        using ne gen gc by simp_all
      then show ?thesis using False ne k by simp
    qed
  qed
qed

theorem generate_configuration_tristate_witness:
  "hash_glob_spares_document toy_env
   \<and> is_dir st_after (vscode_dir gen0)
   \<and> lookup st_after (output_file gen0) \<noteq> Some Dir
   \<and> fst (generate_configuration toy_env gen0 st_after [dir_a]) = Inr 2
   \<and> opened (snd (generate_configuration toy_env gen0 st_after [dir_a])) = opened st_after"
proof -
  obtain cfgs ch st1 where pe: "process_each toy_env gen0 st_after [dir_a] = (Inr (cfgs, ch), st1)"
    and fl: "cfgs \<noteq> []" "\<not> ch"
    using run1_flag by (cases "process_each toy_env gen0 st_after [dir_a]") (auto split: sum.splits)
  have gc: "generate_configuration toy_env gen0 st_after [dir_a]
              = (fst (generate_configuration toy_env gen0 st_after [dir_a]),
                 snd (generate_configuration toy_env gen0 st_after [dir_a]))"
    by simp
  note t = generate_configuration_tristate[OF toy_env_spares_document st_after_vscode st_after_document pe gc]
  have "fst (generate_configuration toy_env gen0 st_after [dir_a]) = Inr 2
        \<and> opened (snd (generate_configuration toy_env gen0 st_after [dir_a])) = opened st_after"
    using t fl by auto
  then show ?thesis
    using toy_env_spares_document st_after_vscode st_after_document by simp
qed

section \<open>Entries\<close>

lemma finite_scan_files:
  assumes "scan_files st ps r = Inr r'"
    and "finite (r_include_dirs r)" "finite (r_defines r)" "finite (r_framework_dirs r)"
  shows "finite (r_include_dirs r') \<and> finite (r_defines r') \<and> finite (r_framework_dirs r')"
  using assms
  by (induction ps arbitrary: r) (auto split: sum.splits)

lemma finite_scan_generators_directory:
  assumes "scan_generators_directory e st d bt = Inr r"
  shows "finite (r_include_dirs r) \<and> finite (r_defines r) \<and> finite (r_framework_dirs r)"
  using finite_scan_files[OF assms[unfolded scan_generators_directory_def]] by simp

lemma create_configuration_entry:
  assumes "create_configuration e self st bd pn bt cd = (Inr (Some cfg, ch), st')"
  shows "\<exists>conan_data. scan_generators_directory e st (bd @ [''generators'']) bt = Inr conan_data
           \<and> cfg = make_config e pn bt cd conan_data"
  using assms
  by (auto simp: create_configuration_def Let_def split: if_splits sum.splits prod.splits)

text \<open>
  \<^bold>\<open>C10\<close>. The defines list of every synthesized entry is \<open>UNICODE\<close>, \<open>_UNICODE\<close>, then
  \<open>_DEBUG\<close> when the build type is the string \<open>Debug\<close> and \<open>NDEBUG\<close> for every other build
  type (\<open>RelWithDebInfo\<close> among them), then the defines of the scanned package metadata,
  each once, in ascending order.
\<close>

theorem create_configuration_defines:
  assumes "create_configuration e self st build_dir preset_name build_type cache_data
             = (Inr (Some cfg, changed), st')"
  shows "\<exists>conan_data.
           scan_generators_directory e st (build_dir @ [''generators'']) build_type = Inr conan_data
           \<and> cfg_defines cfg =
               ''UNICODE'' # ''_UNICODE'' # (if build_type = ''Debug'' then ''_DEBUG'' else ''NDEBUG'')
                 # sorted_list_of_set (r_defines conan_data)
           \<and> sorted (sorted_list_of_set (r_defines conan_data))
           \<and> distinct (sorted_list_of_set (r_defines conan_data))
           \<and> set (sorted_list_of_set (r_defines conan_data)) = r_defines conan_data"
proof -
  obtain conan_data where s: "scan_generators_directory e st (build_dir @ [''generators'']) build_type = Inr conan_data"
    and c: "cfg = make_config e preset_name build_type cache_data conan_data"
    using create_configuration_entry[OF assms] by blast
  have "finite (r_defines conan_data)" using finite_scan_generators_directory[OF s] by simp
  moreover have "cfg_defines cfg = build_defines build_type conan_data"
    unfolding c make_config_def by (simp add: Let_def split: prod.splits)
  ultimately show ?thesis using s by (auto simp: build_defines_def)
qed

lemma entry0:
  "(case create_configuration toy_env gen0 st0 dir_a ''a'' ''Debug'' Map.empty of
      (Inr (Some cfg, ch), st') \<Rightarrow> cfg_defines cfg = [''UNICODE'', ''_UNICODE'', ''_DEBUG'', ''ZLIB_CONST'']
    | _ \<Rightarrow> False)"
  by code_simp

theorem create_configuration_defines_witness:
  "\<exists>cfg changed st' conan_data.
      create_configuration toy_env gen0 st0 dir_a ''a'' ''Debug'' Map.empty = (Inr (Some cfg, changed), st')
      \<and> scan_generators_directory toy_env st0 (dir_a @ [''generators'']) ''Debug'' = Inr conan_data
      \<and> cfg_defines cfg = ''UNICODE'' # ''_UNICODE'' # ''_DEBUG'' # sorted_list_of_set (r_defines conan_data)
      \<and> cfg_defines cfg = [''UNICODE'', ''_UNICODE'', ''_DEBUG'', ''ZLIB_CONST'']"
proof -
  obtain cfg ch st' where
    c: "create_configuration toy_env gen0 st0 dir_a ''a'' ''Debug'' Map.empty = (Inr (Some cfg, ch), st')"
    and d: "cfg_defines cfg = [''UNICODE'', ''_UNICODE'', ''_DEBUG'', ''ZLIB_CONST'']"
    using entry0
    by (cases "create_configuration toy_env gen0 st0 dir_a ''a'' ''Debug'' Map.empty")
       (auto split: sum.splits option.splits prod.splits)
  from create_configuration_defines[OF c] obtain conan_data where
    "scan_generators_directory toy_env st0 (dir_a @ [''generators'']) ''Debug'' = Inr conan_data"
    "cfg_defines cfg = ''UNICODE'' # ''_UNICODE'' # ''_DEBUG'' # sorted_list_of_set (r_defines conan_data)"
    by auto
  with c d show ?thesis by blast
qed

text \<open>
  \<^bold>\<open>C9\<close>, as stated, fails: \<^verbatim>\<open>cache_data.get("CMAKE_CXX_COMPILER") or detected_compiler\<close>
  passes over an empty value. A build cache whose compiler entry holds only white space is
  read as the empty string, and the entry then carries the detected compiler.
\<close>

theorem blank_compiler_entry_counterexample:
  "(case read_cache st_blank (dir_a @ [''CMakeCache.txt'']) of
      Inr cache_data \<Rightarrow> cache_data ''CMAKE_CXX_COMPILER'' = Some [] | Inl err \<Rightarrow> False)
   \<and> (case fst (process_build_directory toy_env gen0 st_blank dir_a) of
        Inr (cfgs, ch) \<Rightarrow> map compilerPath cfgs = [''/usr/bin/gcc''] | Inl err \<Rightarrow> False)"
  by code_simp

text \<open>
  \<^bold>\<open>C9\<close>, amended. The \<open>compilerPath\<close> of a synthesized entry is the build cache's compiler
  path when the cache has one that is not empty; otherwise (no entry, or an empty one) it
  is the path the platform probe found, and the empty string when the probe found none.
\<close>

theorem compiler_path_precedence:
  assumes "create_configuration e self st build_dir preset_name build_type cache_data
             = (Inr (Some cfg, changed), st')"
  shows "compilerPath cfg =
           (case cache_data ''CMAKE_CXX_COMPILER'' of
              Some v \<Rightarrow> if v \<noteq> [] then v else detected_or_empty e
            | None \<Rightarrow> detected_or_empty e)"
proof -
  obtain conan_data where c: "cfg = make_config e preset_name build_type cache_data conan_data"
    using create_configuration_entry[OF assms] by blast
  show ?thesis
    unfolding c make_config_def detected_or_empty_def
    by (auto simp: Let_def truthy_def split: prod.splits option.splits)
qed

lemma entry_cached_compiler:
  "(case create_configuration toy_env gen0 st0 dir_a ''a'' ''Debug''
           [''CMAKE_CXX_COMPILER'' \<mapsto> ''/opt/bin/c++''] of
      (Inr (Some cfg, ch), st') \<Rightarrow> True
    | _ \<Rightarrow> False)"
  by code_simp

theorem compiler_path_precedence_witness:
  "\<exists>cfg changed st'.
      create_configuration toy_env gen0 st0 dir_a ''a'' ''Debug''
          [''CMAKE_CXX_COMPILER'' \<mapsto> ''/opt/bin/c++'']
        = (Inr (Some cfg, changed), st')
      \<and> compilerPath cfg = ''/opt/bin/c++''"
proof -
  obtain cfg ch st' where
    c: "create_configuration toy_env gen0 st0 dir_a ''a'' ''Debug''
          [''CMAKE_CXX_COMPILER'' \<mapsto> ''/opt/bin/c++''] = (Inr (Some cfg, ch), st')"
    using entry_cached_compiler
    by (cases "create_configuration toy_env gen0 st0 dir_a ''a'' ''Debug''
                 [''CMAKE_CXX_COMPILER'' \<mapsto> ''/opt/bin/c++'']")
       (auto split: sum.splits option.splits prod.splits)
  from compiler_path_precedence[OF c] have "compilerPath cfg = ''/opt/bin/c++''" by simp
  with c show ?thesis by blast
qed

section \<open>Change detection\<close>

lemma lookup_mset:
  assumes "distinct (map fst (fs st))" and "mset (fs st2) = mset (fs st)"
  shows "lookup st2 = lookup st"
proof -
  have "mset (map fst (fs st2)) = mset (map fst (fs st))" using assms(2) by (metis mset_map)
  then have "distinct (map fst (fs st2))" using assms(1) by (metis mset_eq_imp_distinct_iff)
  moreover have "set (fs st2) = set (fs st)" using assms(2) by (metis set_mset_mset)
  ultimately have "map_of (fs st2) = map_of (fs st)"
    using assms(1) by (simp add: map_of_inject_set)
  then show ?thesis by (auto simp: lookup_def fun_eq_iff)
qed

lemma glob_mset:
  assumes "distinct (map fst (fs st))" and "mset (fs st2) = mset (fs st)"
  shows "mset (glob e st2 d pat) = mset (glob e st d pat)"
proof -
  have "mset (map fst (fs st2)) = mset (map fst (fs st))" using assms(2) by (metis mset_map)
  then show ?thesis
    using lookup_mset[OF assms] by (simp add: glob_def children_def is_dir_def)
qed

lemma read_all_lookup:
  assumes "\<forall>p\<in>set ps. lookup st2 p = lookup st p"
  shows "read_all st2 ps = read_all st ps"
  using assms
  by (induction ps) (auto simp: read_bytes_def read_text_def split: sum.splits option.splits node.splits)

text \<open>
  \<^bold>\<open>C3\<close>. The content hash does not depend on the order in which the file system
  enumerates its entries: two states that hold the same entries (each path once) in any
  two orders give the same result of \<^verbatim>\<open>_hash_directory\<close>, for every directory and build
  type, because the matching paths are sorted before their contents are digested.
\<close>

theorem hash_directory_enumeration_order:
  assumes "distinct (map fst (fs st))" and "mset (fs st2) = mset (fs st)"
  shows "hash_directory e st2 directory build_type = hash_directory e st directory build_type"
proof -
  let ?pat = "data_pattern build_type"
  have "mset (sort (glob e st2 directory ?pat)) = mset (glob e st directory ?pat)"
    using glob_mset[OF assms] by simp
  then have "sort (glob e st directory ?pat) = sort (glob e st2 directory ?pat)"
    by (rule properties_for_sort) simp
  moreover have "read_all st2 ps = read_all st ps" for ps
    using read_all_lookup[of ps st2 st] lookup_mset[OF assms] by simp
  ultimately show ?thesis by (simp add: hash_directory_def)
qed

lemma st_pkgs_distinct: "distinct (map fst (fs st_pkgs))"
  by code_simp

lemma st_pkgs_hash:
  "hash_directory toy_env st_pkgs (dir_a @ [''generators'']) ''Debug''
     = Inr (toy_digest (fmt_data @ zlib_data))"
  by code_simp

theorem hash_directory_enumeration_order_witness:
  "distinct (map fst (fs st_pkgs))
   \<and> mset (fs (st_pkgs\<lparr>fs := rev (fs st_pkgs)\<rparr>)) = mset (fs st_pkgs)
   \<and> hash_directory toy_env (st_pkgs\<lparr>fs := rev (fs st_pkgs)\<rparr>) (dir_a @ [''generators'']) ''Debug''
       = Inr (toy_digest (fmt_data @ zlib_data))"
proof -
  have m: "mset (fs (st_pkgs\<lparr>fs := rev (fs st_pkgs)\<rparr>)) = mset (fs st_pkgs)" by simp
  show ?thesis
    using hash_directory_enumeration_order[OF st_pkgs_distinct m, of toy_env "dir_a @ [''generators'']" "''Debug''"]
      st_pkgs_distinct m st_pkgs_hash
    by simp
qed

lemma filter_removeAll: "\<not> P k \<Longrightarrow> filter P (removeAll k xs) = filter P xs"
  by (induction xs) auto

lemma children_with_record:
  assumes "butlast hf \<noteq> d"
  shows "children (with_record st hf c) d = children st d"
  using assms by (simp add: children_def with_record_def update_keys)

lemma children_without_record:
  assumes "butlast hf \<noteq> d"
  shows "children (without_record st hf) d = children st d"
  using assms by (simp add: children_def without_record_def delete_keys filter_removeAll)

lemma lookup_with_record:
  "lookup (with_record st hf c) q = (if q = hf then Some (File c) else lookup st q)"
  by (simp add: lookup_def with_record_def update_conv')

lemma lookup_without_record:
  "lookup (without_record st hf) q = (if q = hf then None else lookup st q)"
  by (simp add: lookup_def without_record_def delete_conv')

lemma agree_glob: "agree_on d a b \<Longrightarrow> glob e a d pat = glob e b d pat"
  by (simp add: agree_on_def glob_def is_dir_def)

lemma glob_children: "p \<in> set (glob e st d pat) \<Longrightarrow> p \<noteq> [] \<and> butlast p = d"
  by (auto simp: glob_def children_def split: if_splits)

lemma agree_hash_directory:
  assumes "agree_on d a b"
  shows "hash_directory e a d bt = hash_directory e b d bt"
proof -
  let ?ps = "sort (glob e b d (data_pattern bt))"
  have "\<forall>p\<in>set ?ps. lookup a p = lookup b p"
    using assms glob_children[of _ e b d] by (auto simp: agree_on_def)
  then have "read_all a ?ps = read_all b ?ps" by (rule read_all_lookup)
  then show ?thesis by (simp add: hash_directory_def agree_glob[OF assms])
qed

lemma scan_files_lookup:
  assumes "\<forall>p\<in>set ps. lookup a p = lookup b p"
  shows "scan_files a ps r = scan_files b ps r"
  using assms
  by (induction ps arbitrary: r)
     (auto simp: parse_data_file_def read_text_def split: sum.splits option.splits node.splits)

lemma agree_scan:
  assumes "agree_on d a b"
  shows "scan_generators_directory e a d bt = scan_generators_directory e b d bt"
proof -
  let ?ps = "glob e b d (data_pattern bt)"
  have "\<forall>p\<in>set ?ps. lookup a p = lookup b p"
    using assms glob_children[of _ e b d] by (auto simp: agree_on_def)
  then have "scan_files a ?ps r = scan_files b ?ps r" for r by (rule scan_files_lookup)
  then show ?thesis by (simp add: scan_generators_directory_def agree_glob[OF assms])
qed

text \<open>
  \<^bold>\<open>C7\<close>. For a generator as \<^verbatim>\<open>__init__\<close> leaves it, the entry (or the exception) that
  \<^verbatim>\<open>_create_configuration\<close> gives is the same whether the hash record of the pair holds
  any text \<open>c\<close> at all (the current hash, a stale one, anything) or does not exist: the
  metadata is parsed in both cases. The record decides the change flag only: with the
  record the flag is set exactly when the entry exists and the stripped record differs
  from the content hash.
\<close>

theorem entry_independent_of_record:
  assumes init: "vscode_dir self = workspace_root self @ [''.vscode'']"
    and vs: "is_dir st (vscode_dir self)"
  shows "map_sum id fst (fst (create_configuration e self
             (with_record st (vscode_dir self @ [hash_file_name preset_name build_type]) c)
             build_dir preset_name build_type cache_data))
         = map_sum id fst (fst (create_configuration e self
             (without_record st (vscode_dir self @ [hash_file_name preset_name build_type]))
             build_dir preset_name build_type cache_data))
       \<and> fst (create_configuration e self
             (with_record st (vscode_dir self @ [hash_file_name preset_name build_type]) c)
             build_dir preset_name build_type cache_data)
         = map_sum id
             (\<lambda>(cfg, ch). (cfg, ch \<and> hash_directory e st (build_dir @ [''generators'']) build_type
                                           \<noteq> Inr (strip c)))
             (fst (create_configuration e self
                (without_record st (vscode_dir self @ [hash_file_name preset_name build_type]))
                build_dir preset_name build_type cache_data))"
proof -
  let ?hf = "vscode_dir self @ [hash_file_name preset_name build_type]"
  let ?gd = "build_dir @ [''generators'']"
  let ?w = "with_record st ?hf c"
  let ?d = "without_record st ?hf"
  have bl: "butlast ?hf = vscode_dir self" by simp
  have "vscode_dir self \<noteq> ?gd" unfolding init by simp
  then have ne1: "butlast ?hf \<noteq> ?gd" unfolding bl .
  have nm: "''generators'' \<noteq> hash_file_name preset_name build_type"
    by (simp add: hash_file_name_def)
  then have ne2: "?gd \<noteq> ?hf" by simp
  have ne3: "vscode_dir self \<noteq> ?hf" by simp
  have aw: "agree_on ?gd ?w st"
    using ne1 nm by (auto simp: agree_on_def children_with_record lookup_with_record)
  have ad: "agree_on ?gd ?d st"
    using ne1 nm by (auto simp: agree_on_def children_without_record lookup_without_record)
  have ex: "path_exists ?w ?gd = path_exists st ?gd" "path_exists ?d ?gd = path_exists st ?gd"
    using nm by (simp_all add: path_exists_def lookup_with_record lookup_without_record)
  have hw: "hash_directory e ?w ?gd build_type = hash_directory e st ?gd build_type"
    and hd: "hash_directory e ?d ?gd build_type = hash_directory e st ?gd build_type"
    using agree_hash_directory[OF aw] agree_hash_directory[OF ad] by simp_all
  have sw: "scan_generators_directory e ?w ?gd build_type = scan_generators_directory e st ?gd build_type"
    and sd: "scan_generators_directory e ?d ?gd build_type = scan_generators_directory e st ?gd build_type"
    using agree_scan[OF aw] agree_scan[OF ad] by simp_all
  have cw: "check_changes ?w ?hf h = Inr (strip c \<noteq> h)" for h
    by (simp add: check_changes_def path_exists_def read_text_def lookup_with_record)
  have cd: "check_changes ?d ?hf h = Inr True" for h
    by (simp add: check_changes_def path_exists_def lookup_without_record)
  have dir: "lookup st (vscode_dir self) = Some Dir" using vs by (simp add: is_dir_def)
  have ww: "write_text ?w ?hf h =
               (Inr (), ?w\<lparr>fs := AList.update ?hf (File h) (fs ?w), opened := opened ?w @ [?hf]\<rparr>)" for h
    using dir ne3 by (simp add: write_text_def lookup_with_record)
  have wd: "write_text ?d ?hf h =
               (Inr (), ?d\<lparr>fs := AList.update ?hf (File h) (fs ?d), opened := opened ?d @ [?hf]\<rparr>)" for h
    using dir ne3 by (simp add: write_text_def lookup_without_record)
  show ?thesis
    unfolding create_configuration_def Let_def ex hw hd sw sd
    by (auto simp: cw cd ww wd split: sum.splits)
qed


lemma gen0_init: "vscode_dir gen0 = workspace_root gen0 @ [''.vscode'']"
  by (simp add: gen0_def)

lemma entry_without_record:
  "(case fst (create_configuration toy_env gen0
                (without_record st0 (vscode_dir gen0 @ [hash_file_name ''a'' ''Debug'']))
                dir_a ''a'' ''Debug'' Map.empty) of
      Inr (Some cfg, ch) \<Rightarrow> cfg_name cfg = ''a-Debug'' \<and> ch
    | _ \<Rightarrow> False)"
  by code_simp

theorem entry_independent_of_record_witness:
  "vscode_dir gen0 = workspace_root gen0 @ [''.vscode'']
   \<and> is_dir st0 (vscode_dir gen0)
   \<and> (case fst (create_configuration toy_env gen0
                (with_record st0 (vscode_dir gen0 @ [hash_file_name ''a'' ''Debug''])
                   (toy_digest zlib_data))
                dir_a ''a'' ''Debug'' Map.empty) of
      Inr (Some cfg, ch) \<Rightarrow> cfg_name cfg = ''a-Debug''
    | _ \<Rightarrow> False)"
proof -
  note t = entry_independent_of_record[OF gen0_init st0_vscode,
      of toy_env "''a''" "''Debug''" "toy_digest zlib_data" dir_a Map.empty]
  have "(case fst (create_configuration toy_env gen0
                (with_record st0 (vscode_dir gen0 @ [hash_file_name ''a'' ''Debug''])
                   (toy_digest zlib_data))
                dir_a ''a'' ''Debug'' Map.empty) of
      Inr (Some cfg, ch) \<Rightarrow> cfg_name cfg = ''a-Debug''
    | _ \<Rightarrow> False)"
    using t entry_without_record
    by (auto split: sum.splits option.splits prod.splits)
  then show ?thesis using gen0_init st0_vscode by simp
qed

text \<open>
  \<^bold>\<open>C2\<close> fails on the code. The workspace has two presets, \<open>a\<close> and \<open>a_b\<close>. The first run
  stores both hash records and returns 0. Nothing changes on disk, and the second run
  returns 0 again instead of 2: the cleanup for preset \<open>a\<close> globs \<^verbatim>\<open>.conan_hash_a_*\<close>, which
  also matches the record \<^verbatim>\<open>.conan_hash_a_b_Debug\<close> of preset \<open>a_b\<close>, takes \<open>b_Debug\<close> for a
  build type that is no longer valid and deletes the record, so preset \<open>a_b\<close> is marked
  changed in every run.
\<close>

theorem second_run_reports_changes:
  "discover_build_directories st0 ws_root = both_dirs
   \<and> generate_configuration toy_env gen0 st0 both_dirs = (Inr 0, st_first)
   \<and> discover_build_directories st_first ws_root = both_dirs
   \<and> fst (generate_configuration toy_env gen0 st_first both_dirs) = Inr 0"
  by code_simp

section \<open>Build types of one build directory\<close>

lemma create_configuration_exists:
  assumes "create_configuration e self st bd pn bt cd = (r, st')" and "path_exists st p"
  shows "path_exists st' p"
  using create_configuration_cases[OF assms(1)] assms(2)
  by (auto simp: path_exists_def lookup_update)

lemma create_configuration_name:
  assumes "create_configuration e self st bd pn bt cd = (Inr (c, ch), st')"
    and "path_exists st (bd @ [''generators''])"
  shows "\<exists>cfg. c = Some cfg \<and> cfg_name cfg = pn @ ''-'' @ bt"
  using assms
  by (auto simp: create_configuration_def Let_def make_config_def
           split: if_splits sum.splits prod.splits)

lemma create_each_names:
  assumes "create_each e self st bd pn bts cd = (Inr (cfgs, ch), st')"
    and "path_exists st (bd @ [''generators''])"
  shows "map cfg_name cfgs = map (\<lambda>bt. pn @ ''-'' @ bt) (filter (\<lambda>bt. bt \<noteq> []) bts)"
  using assms
proof (induction bts arbitrary: st cfgs ch st')
  case Nil
  then show ?case by simp
next
  case (Cons bt bts)
  show ?case
  proof (cases "bt = []")
    case True
    with Cons show ?thesis by simp
  next
    case False
    obtain r1 st1 where c: "create_configuration e self st bd pn bt cd = (r1, st1)"
      by (cases "create_configuration e self st bd pn bt cd")
    obtain r2 st2 where e2: "create_each e self st1 bd pn bts cd = (r2, st2)"
      by (cases "create_each e self st1 bd pn bts cd")
    from Cons.prems(1) False c e2 obtain c1 ch1 cfgs2 ch2 where
      r1: "r1 = Inr (c1, ch1)" and r2: "r2 = Inr (cfgs2, ch2)"
      and res: "cfgs = (case c1 of Some x \<Rightarrow> x # cfgs2 | None \<Rightarrow> cfgs2)"
      by (auto split: sum.splits prod.splits)
    have ex1: "path_exists st1 (bd @ [''generators''])"
      using create_configuration_exists[OF c Cons.prems(2)] .
    obtain cfg where cfg: "c1 = Some cfg" "cfg_name cfg = pn @ ''-'' @ bt"
      using create_configuration_name[OF c[unfolded r1] Cons.prems(2)] by blast
    have "map cfg_name cfgs2 = map (\<lambda>bt. pn @ ''-'' @ bt) (filter (\<lambda>bt. bt \<noteq> []) bts)"
      using Cons.IH[OF e2[unfolded r2] ex1] .
    then show ?thesis using res cfg False by simp
  qed
qed

text \<open>
  \<^bold>\<open>C4\<close>. For a build directory with a build cache and a \<^verbatim>\<open>generators\<close> subdirectory,
  when \<^verbatim>\<open>_process_build_directory\<close> returns, the names of its entries are
  \<^verbatim>\<open><preset>-<type>\<close> for every type of the configuration-type list, in the list's order,
  if the list has more than one item (an empty item, as after a trailing semicolon, is no
  type and gives no entry), and otherwise the one name \<^verbatim>\<open><preset>-<build type>\<close> of
  \<^verbatim>\<open>CMAKE_BUILD_TYPE\<close>, which is \<open>Debug\<close> when the cache does not give it. For the list
  \<open>Debug;Release\<close> these are exactly the two entries \<^verbatim>\<open><preset>-Debug\<close> and
  \<^verbatim>\<open><preset>-Release\<close>.
\<close>

theorem process_build_directory_fan_out:
  assumes cache_exists: "path_exists st (build_dir @ [''CMakeCache.txt''])"
    and cache: "read_cache st (build_dir @ [''CMakeCache.txt'']) = Inr cache_data"
    and gen: "path_exists st (build_dir @ [''generators''])"
    and run: "process_build_directory e self st build_dir = (Inr (cfgs, changed), st')"
  shows "map cfg_name cfgs =
           map (\<lambda>build_type. extract_preset_name build_dir @ ''-'' @ build_type)
             (let config_types =
                    split_on (CHR '';'')
                      (case cache_data ''CMAKE_CONFIGURATION_TYPES'' of Some v \<Rightarrow> v | None \<Rightarrow> [])
              in if length config_types > 1 then filter (\<lambda>build_type. build_type \<noteq> []) config_types
                 else [case cache_data ''CMAKE_BUILD_TYPE'' of Some v \<Rightarrow> v | None \<Rightarrow> ''Debug''])
         \<and> (cache_data ''CMAKE_CONFIGURATION_TYPES'' = Some ''Debug;Release'' \<longrightarrow>
              map cfg_name cfgs = [extract_preset_name build_dir @ ''-Debug'',
                                   extract_preset_name build_dir @ ''-Release''])"
proof -
  let ?pn = "extract_preset_name build_dir"
  let ?types = "split_on (CHR '';'')
                  (case cache_data ''CMAKE_CONFIGURATION_TYPES'' of Some v \<Rightarrow> v | None \<Rightarrow> [])"
  let ?bt = "case cache_data ''CMAKE_BUILD_TYPE'' of Some v \<Rightarrow> v | None \<Rightarrow> ''Debug''"
  have main: "map cfg_name cfgs =
           map (\<lambda>build_type. ?pn @ ''-'' @ build_type)
             (if length ?types > 1 then filter (\<lambda>build_type. build_type \<noteq> []) ?types else [?bt])"
  proof (cases "length ?types > 1")
    case True
    obtain r1 st1 where e1: "create_each e self st build_dir ?pn ?types cache_data = (r1, st1)"
      by (cases "create_each e self st build_dir ?pn ?types cache_data")
    have "r1 = Inr (cfgs, changed)"
      using run cache_exists cache True e1
      by (auto simp: process_build_directory_def Let_def split: sum.splits prod.splits)
    then show ?thesis using create_each_names[OF _ gen] e1 True by simp
  next
    case False
    obtain r1 st1 where c1: "create_configuration e self st build_dir ?pn ?bt cache_data = (r1, st1)"
      by (cases "create_configuration e self st build_dir ?pn ?bt cache_data")
    obtain c ch where r1: "r1 = Inr (c, ch)" and res: "cfgs = (case c of Some x \<Rightarrow> [x] | None \<Rightarrow> [])"
      using run cache_exists cache False c1
      by (auto simp: process_build_directory_def Let_def split: sum.splits prod.splits)
    obtain cfg where "c = Some cfg" "cfg_name cfg = ?pn @ ''-'' @ ?bt"
      using create_configuration_name[OF c1[unfolded r1] gen] by blast
    then show ?thesis using res False by simp
  qed
  have "cache_data ''CMAKE_CONFIGURATION_TYPES'' = Some ''Debug;Release'' \<Longrightarrow>
          map cfg_name cfgs = [?pn @ ''-Debug'', ?pn @ ''-Release'']"
    using main by simp
  with main show ?thesis by (simp add: Let_def)
qed

lemma st_multi_cache:
  "path_exists st_multi (dir_a @ [''CMakeCache.txt''])
   \<and> path_exists st_multi (dir_a @ [''generators''])
   \<and> (case read_cache st_multi (dir_a @ [''CMakeCache.txt'']) of
        Inr cache_data \<Rightarrow> cache_data ''CMAKE_CONFIGURATION_TYPES'' = Some ''Debug;Release''
      | Inl err \<Rightarrow> False)"
  by code_simp

lemma st_multi_run:
  "(case fst (process_build_directory toy_env gen0 st_multi dir_a) of
      Inr v \<Rightarrow> True | Inl err \<Rightarrow> False)"
  by code_simp

lemma preset_dir_a: "extract_preset_name dir_a = ''a''"
  by code_simp

theorem process_build_directory_fan_out_witness:
  "path_exists st_multi (dir_a @ [''CMakeCache.txt''])
   \<and> path_exists st_multi (dir_a @ [''generators''])
   \<and> (\<exists>cache_data cfgs changed st'.
         read_cache st_multi (dir_a @ [''CMakeCache.txt'']) = Inr cache_data
         \<and> cache_data ''CMAKE_CONFIGURATION_TYPES'' = Some ''Debug;Release''
         \<and> process_build_directory toy_env gen0 st_multi dir_a = (Inr (cfgs, changed), st')
         \<and> map cfg_name cfgs = [''a-Debug'', ''a-Release''])"
proof -
  have ex: "path_exists st_multi (dir_a @ [''CMakeCache.txt''])"
    and gen: "path_exists st_multi (dir_a @ [''generators''])"
    using st_multi_cache by simp_all
  obtain cache_data where cache: "read_cache st_multi (dir_a @ [''CMakeCache.txt'']) = Inr cache_data"
    and types: "cache_data ''CMAKE_CONFIGURATION_TYPES'' = Some ''Debug;Release''"
    using st_multi_cache by (auto split: sum.splits)
  obtain cfgs changed st' where
    run: "process_build_directory toy_env gen0 st_multi dir_a = (Inr (cfgs, changed), st')"
    using st_multi_run
    by (cases "process_build_directory toy_env gen0 st_multi dir_a") (auto split: sum.splits)
  have names: "map cfg_name cfgs = [''a-Debug'', ''a-Release'']"
    using process_build_directory_fan_out[OF ex cache gen run] types preset_dir_a by simp
  have "\<exists>cache_data cfgs changed st'.
         read_cache st_multi (dir_a @ [''CMakeCache.txt'']) = Inr cache_data
         \<and> cache_data ''CMAKE_CONFIGURATION_TYPES'' = Some ''Debug;Release''
         \<and> process_build_directory toy_env gen0 st_multi dir_a = (Inr (cfgs, changed), st')
         \<and> map cfg_name cfgs = [''a-Debug'', ''a-Release'']"
    using cache types run names by (intro exI conjI)
  with ex gen show ?thesis by simp
qed

section \<open>Orphan cleanup\<close>

text \<open>
  \<^bold>\<open>C5\<close> fails on the code. \<^verbatim>\<open>_cleanup_orphaned_hashes\<close> puts the preset name into the \<^verbatim>\<open>glob\<close>
  pattern as it is, so a name with a bracket is read as a character class. The build
  directory \<^verbatim>\<open>build/p[1]/build\<close> belongs to preset \<open>p[1]\<close>, now a Debug build; \<^verbatim>\<open>.vscode\<close> holds
  its record \<^verbatim>\<open>.conan_hash_p[1]_Release\<close> of an earlier Release build, and the record
  \<^verbatim>\<open>.conan_hash_p1_Debug\<close> of a preset \<open>p1\<close>. The pattern \<^verbatim>\<open>.conan_hash_p[1]_*\<close> does not match
  the preset's own record, which carries the preset's prefix and the build type \<open>Release\<close>
  that is no longer valid: the record is kept. The pattern does match the record of \<open>p1\<close>,
  whose name after the first 17 characters is \<open>bug\<close>, and that record is deleted.
\<close>

theorem bracket_preset_orphan_kept:
  "extract_preset_name dir_p = ''p[1]''
   \<and> (case process_build_directory bracket_env gen0 st_brackets dir_p of
        (Inr (cfgs, changed), st') \<Rightarrow>
          map cfg_name cfgs = [''p[1]-Debug'']
          \<and> lookup st' (vscode_dir gen0 @ [''.conan_hash_p[1]_Release'']) = Some (File ''r'')
          \<and> lookup st' (vscode_dir gen0 @ [''.conan_hash_p1_Debug'']) = None
          \<and> stdout st' = [''[IntelliSense] Cleaned up orphaned hash: .conan_hash_p1_Debug'']
          \<and> stderr st' = []
      | (Inl err, st') \<Rightarrow> False)"
  by code_simp

section \<open>Include directories of a metadata file\<close>

lemma is_word_simps [simp]:
  "\<not> is_word (CHR '' '')" "\<not> is_word (CHR ''('')" "\<not> is_word dq" "\<not> is_word nl"
  "\<not> is_word (CHR ''}'')" "\<not> is_word (CHR '')'')"
  by (simp_all add: is_word_def dq_def nl_def)

lemma lit_Cons [simp]:
  "lit (a # l) k (c # s) = (if a = c then lit l k s else None)"
  "lit (a # l) k [] = None"
  "lit [] k s = k s"
  by (simp_all add: lit_def)








































end
